theory Spec2Isabelle
  imports
    Main
    "HOL-Library.Sublist"
    "HOL-Library.Multiset"
    "HOL-Library.Option_ord"
    "HOL-Library.Product_Lexorder"
    "HOL-Library.List_Lexorder"
begin

section \<open>Text values\<close>

text \<open>
  A text value is the list of its Unicode code points. JavaScript's \<^verbatim>\<open>trim\<close>, the
  emptiness tests of the controllers, the character counts of \<^verbatim>\<open>VARCHAR(n)\<close> and the
  one-character wildcard of \<^verbatim>\<open>ILIKE\<close> all work on code points. A JavaScript string
  holds a code point above U+FFFF as a pair of surrogates, and it may hold a surrogate
  that is not part of a pair: a text of a request may hold surrogates (U+D800..U+DFFF),
  a text of the store holds none. \<open>ascii\<close> embeds an ASCII literal.
\<close>

type_synonym ustring = "nat list"

definition ascii :: "string \<Rightarrow> ustring" where
  "ascii s = map of_char s"

text \<open>
  \<^verbatim>\<open>String.prototype.trim\<close> strips the ECMAScript white space and line terminator
  code points from both ends: U+0009..U+000D, U+0020, U+00A0, U+1680, U+2000..U+200A,
  U+2028, U+2029, U+202F, U+205F, U+3000 and U+FEFF.
\<close>

definition js_whitespace :: "nat \<Rightarrow> bool" where
  "js_whitespace c =
     ((9 \<le> c \<and> c \<le> 13) \<or> c = 32 \<or> c = 160 \<or> c = 5760 \<or> (8192 \<le> c \<and> c \<le> 8202)
      \<or> c = 8232 \<or> c = 8233 \<or> c = 8239 \<or> c = 8287 \<or> c = 12288 \<or> c = 65279)"

definition trim :: "ustring \<Rightarrow> ustring" where
  "trim s = rev (dropWhile js_whitespace (rev (dropWhile js_whitespace s)))"

text \<open>
  Request fields are modelled at the types the handlers document: a text field is
  \<open>None\<close> when it is absent or null and \<open>Some s\<close> otherwise, an integer field likewise.
  \<open>truthy_text\<close> and \<open>truthy_int\<close> are JavaScript's truthiness on these values: the
  empty string and the number 0 are falsy, as absent and null are. A field that holds a
  value of another JSON type is not modelled.
\<close>

definition truthy_text :: "ustring option \<Rightarrow> bool" where
  "truthy_text v = (case v of None \<Rightarrow> False | Some s \<Rightarrow> s \<noteq> [])"

definition truthy_int :: "int option \<Rightarrow> bool" where
  "truthy_int v = (case v of None \<Rightarrow> False | Some n \<Rightarrow> n \<noteq> 0)"

text \<open>\<^verbatim>\<open>v || null\<close> on an integer field.\<close>

definition or_null :: "int option \<Rightarrow> int option" where
  "or_null v = (if truthy_int v then v else None)"

text \<open>\<^verbatim>\<open>v ? v.trim() : null\<close> on a text field.\<close>

definition trim_or_null :: "ustring option \<Rightarrow> ustring option" where
  "trim_or_null v = (case v of None \<Rightarrow> None | Some s \<Rightarrow> if s = [] then None else Some (trim s))"

text \<open>\<^verbatim>\<open>v ? v.trim() : d\<close> and \<^verbatim>\<open>v || d\<close> on a text field, with a default text.\<close>

definition trim_or_default :: "ustring \<Rightarrow> ustring option \<Rightarrow> ustring" where
  "trim_or_default d v = (case v of None \<Rightarrow> d | Some s \<Rightarrow> if s = [] then d else trim s)"

definition or_default :: "ustring \<Rightarrow> ustring option \<Rightarrow> ustring" where
  "or_default d v = (case v of None \<Rightarrow> d | Some s \<Rightarrow> if s = [] then d else s)"

section \<open>The relational store\<close>

text \<open>
  The three tables of \<^verbatim>\<open>initializeDatabase\<close>. A row is a record of its columns, a
  table the list of its rows, a nullable column an option. \<^verbatim>\<open>INTEGER\<close> columns are
  modelled over the unbounded integers (a value outside 32 bits, which the store would
  reject, is not modelled), timestamps as natural numbers. The two \<^verbatim>\<open>SERIAL\<close>
  sequences are the counters \<open>next_team_id\<close> and \<open>next_player_id\<close>.
\<close>

record team =
  t_id :: int
  team_name :: ustring
  team_logo :: "ustring option"
  team_color :: "ustring option"
  description :: "ustring option"
  t_user_id :: int
  t_created_at :: nat
  t_updated_at :: nat

record player =
  p_id :: int
  player_name :: ustring
  position :: "ustring option"
  jersey_number :: "int option"
  team_id :: "int option"
  p_user_id :: int
  p_created_at :: nat
  p_updated_at :: nat

record db =
  users :: "int list"
  teams :: "team list"
  players :: "player list"
  next_team_id :: int
  next_player_id :: int

text \<open>
  What the store raises for a statement the schema rejects: a text parameter holding
  the code point 0, a value too long for its \<^verbatim>\<open>VARCHAR(n)\<close> column, or a foreign key
  with no referenced row. The handlers catch all of them alike.
\<close>

datatype error = InvalidText | StringTooLong | ForeignKeyViolation

text \<open>
  The driver sends a text parameter to the store as UTF-8: a high surrogate
  (U+D800..U+DBFF) followed by a low one (U+DC00..U+DFFF) is sent as the code point of
  the pair, every other surrogate as U+FFFD.
\<close>

fun utf8_text :: "ustring \<Rightarrow> ustring" where
  "utf8_text [] = []"
| "utf8_text [c] = [if 55296 \<le> c \<and> c \<le> 57343 then 65533 else c]"
| "utf8_text (c # e # cs) =
     (if 55296 \<le> c \<and> c \<le> 56319 \<and> 56320 \<le> e \<and> e \<le> 57343
      then (65536 + (c - 55296) * 1024 + (e - 56320)) # utf8_text cs
      else (if 55296 \<le> c \<and> c \<le> 57343 then 65533 else c) # utf8_text (e # cs))"

text \<open>
  The store takes no text that holds the code point 0. A \<^verbatim>\<open>VARCHAR(n)\<close> column
  takes a value of at most \<open>n\<close> characters; a longer one is rejected unless the excess
  is all spaces, which are cut off.
\<close>

definition text_param :: "ustring \<Rightarrow> error + ustring" where
  "text_param s = (let v = utf8_text s in if 0 \<in> set v then Inl InvalidText else Inr v)"

definition varchar :: "nat \<Rightarrow> ustring \<Rightarrow> error + ustring" where
  "varchar n s =
     (let v = utf8_text s
      in if 0 \<in> set v then Inl InvalidText
         else if length v \<le> n then Inr v
         else if list_all (\<lambda>c. c = 32) (drop n v) then Inr (take n v)
         else Inl StringTooLong)"

definition nullable :: "('a \<Rightarrow> error + 'b) \<Rightarrow> 'a option \<Rightarrow> error + 'b option" where
  "nullable f v = (case v of None \<Rightarrow> Inr None | Some x \<Rightarrow> map_sum id Some (f x))"

definition and_then :: "error + 'a \<Rightarrow> ('a \<Rightarrow> error + 'b) \<Rightarrow> error + 'b" where
  "and_then r f = (case r of Inl e \<Rightarrow> Inl e | Inr x \<Rightarrow> f x)"

text \<open>The foreign keys: \<^verbatim>\<open>user_id REFERENCES users(id)\<close>, \<^verbatim>\<open>team_id REFERENCES teams(id)\<close>.\<close>

definition user_exists :: "int \<Rightarrow> db \<Rightarrow> bool" where
  "user_exists u d = (u \<in> set (users d))"

definition team_ref_ok :: "int option \<Rightarrow> db \<Rightarrow> bool" where
  "team_ref_ok r d = (case r of None \<Rightarrow> True | Some t \<Rightarrow> t \<in> set (map t_id (teams d)))"

text \<open>\<^verbatim>\<open>result.rows[0] || null\<close>\<close>

definition first_row :: "'a list \<Rightarrow> 'a option" where
  "first_row rows = (case rows of [] \<Rightarrow> None | r # _ \<Rightarrow> Some r)"

section \<open>Result rows\<close>

text \<open>
  The queries select fewer columns than the tables hold. \<open>team_row\<close> is the column list
  of \<^verbatim>\<open>Team.findById\<close> and \<^verbatim>\<open>Team.findAllByUserId\<close>; \<open>player_row\<close> that of
  \<^verbatim>\<open>findGlobalPlayers\<close>, \<^verbatim>\<open>findAllByTeamId\<close> and the hierarchy; \<open>player_detail\<close> that of
  \<^verbatim>\<open>Player.findById\<close> (an inner join, so the team's name is not null);
  \<open>player_listing\<close> that of \<^verbatim>\<open>Player.findAllByUserId\<close> and \<^verbatim>\<open>Player.search\<close> (a left
  join, so every team column is null for a player without a team).
\<close>

record team_row =
  tr_id :: int
  tr_team_name :: ustring
  tr_team_logo :: "ustring option"
  tr_team_color :: "ustring option"
  tr_description :: "ustring option"
  tr_created_at :: nat
  tr_updated_at :: nat

record player_row =
  pr_id :: int
  pr_player_name :: ustring
  pr_position :: "ustring option"
  pr_jersey_number :: "int option"
  pr_created_at :: nat
  pr_updated_at :: nat

record player_detail =
  pd_id :: int
  pd_player_name :: ustring
  pd_position :: "ustring option"
  pd_jersey_number :: "int option"
  pd_team_id :: "int option"
  pd_team_name :: ustring
  pd_team_color :: "ustring option"
  pd_created_at :: nat
  pd_updated_at :: nat

record player_listing =
  pl_id :: int
  pl_player_name :: ustring
  pl_position :: "ustring option"
  pl_jersey_number :: "int option"
  pl_team_id :: "int option"
  pl_team_name :: "ustring option"
  pl_team_color :: "ustring option"
  pl_team_logo :: "ustring option"
  pl_created_at :: nat
  pl_updated_at :: nat

definition select_team :: "team \<Rightarrow> team_row" where
  "select_team t =
     \<lparr>tr_id = t_id t, tr_team_name = team_name t, tr_team_logo = team_logo t,
      tr_team_color = team_color t, tr_description = description t,
      tr_created_at = t_created_at t, tr_updated_at = t_updated_at t\<rparr>"

definition select_player :: "player \<Rightarrow> player_row" where
  "select_player p =
     \<lparr>pr_id = p_id p, pr_player_name = player_name p, pr_position = position p,
      pr_jersey_number = jersey_number p,
      pr_created_at = p_created_at p, pr_updated_at = p_updated_at p\<rparr>"

definition select_detail :: "player \<times> team \<Rightarrow> player_detail" where
  "select_detail r =
     (case r of (p, t) \<Rightarrow>
       \<lparr>pd_id = p_id p, pd_player_name = player_name p, pd_position = position p,
        pd_jersey_number = jersey_number p, pd_team_id = team_id p,
        pd_team_name = team_name t, pd_team_color = team_color t,
        pd_created_at = p_created_at p, pd_updated_at = p_updated_at p\<rparr>)"

definition select_listing :: "player \<times> team option \<Rightarrow> player_listing" where
  "select_listing r =
     (case r of (p, t) \<Rightarrow>
       \<lparr>pl_id = p_id p, pl_player_name = player_name p, pl_position = position p,
        pl_jersey_number = jersey_number p, pl_team_id = team_id p,
        pl_team_name = map_option team_name t,
        pl_team_color = Option.bind t team_color,
        pl_team_logo = Option.bind t team_logo,
        pl_created_at = p_created_at p, pl_updated_at = p_updated_at p\<rparr>)"

section \<open>Joins, ordering and pattern matching\<close>

text \<open>\<^verbatim>\<open>players p JOIN teams t ON p.team_id = t.id\<close>: a null team id equals nothing.\<close>

definition on_team :: "player \<Rightarrow> team \<Rightarrow> bool" where
  "on_team p t = (team_id p = Some (t_id t))"

definition inner_join :: "player list \<Rightarrow> team list \<Rightarrow> (player \<times> team) list" where
  "inner_join ps ts = concat (map (\<lambda>p. map (\<lambda>t. (p, t)) (filter (on_team p) ts)) ps)"

text \<open>\<^verbatim>\<open>players p LEFT JOIN teams t ON p.team_id = t.id\<close>: a player no team matches
  yields one row, with the team null.\<close>

definition left_join :: "player list \<Rightarrow> team list \<Rightarrow> (player \<times> team option) list" where
  "left_join ps ts =
     concat (map (\<lambda>p. case filter (on_team p) ts of
                         [] \<Rightarrow> [(p, None)]
                       | m # ms \<Rightarrow> map (\<lambda>t. (p, Some t)) (m # ms)) ps)"

text \<open>
  \<^verbatim>\<open>ORDER BY\<close> compares text by the collation of the store, which is not part of the
  repository: the listing operations take it as the parameter \<open>coll\<close>, a sort key into
  a linear order. An \<^verbatim>\<open>ORDER BY\<close> list is a lexicographic key; \<open>None\<close> is the least
  option, which is \<^verbatim>\<open>NULLS FIRST\<close>. The order among rows of equal keys is not fixed by
  SQL; the model keeps the table's order.

  \<^verbatim>\<open>CASE WHEN p.team_id IS NULL THEN 0 ELSE 1 END, t.team_name ASC NULLS FIRST,
  p.player_name ASC\<close>
\<close>

definition listing_key ::
  "(ustring \<Rightarrow> 'k::linorder) \<Rightarrow> player \<times> team option \<Rightarrow> nat \<times> 'k option \<times> 'k" where
  "listing_key coll r =
     (case r of (p, t) \<Rightarrow>
       (if team_id p = None then 0 else 1,
        map_option (\<lambda>t. coll (team_name t)) t,
        coll (player_name p)))"

text \<open>\<^verbatim>\<open>CASE WHEN position IS NULL THEN 1 ELSE 0 END, position ASC, player_name ASC\<close>\<close>

definition roster_key :: "(ustring \<Rightarrow> 'k::linorder) \<Rightarrow> player \<Rightarrow> nat \<times> 'k option \<times> 'k" where
  "roster_key coll p =
     (if position p = None then 1 else 0,
      map_option coll (position p),
      coll (player_name p))"

text \<open>
  \<^verbatim>\<open>LIKE\<close>: in the pattern \<^verbatim>\<open>%\<close> (37) matches any sequence of characters, \<^verbatim>\<open>_\<close> (95)
  any one character, and a backslash (92) makes the character after it literal. A
  pattern that ends in a single backslash matches nothing here; \<^verbatim>\<open>Player.search\<close>
  never builds one, its pattern ends in \<^verbatim>\<open>%\<close>.
\<close>

fun like :: "ustring \<Rightarrow> ustring \<Rightarrow> bool" where
  "like [] s = (s = [])"
| "like (p # ps) [] = (p = 37 \<and> like ps [])"
| "like (p # ps) (c # cs) =
     (if p = 37 then like ps (c # cs) \<or> like (p # ps) cs
      else if p = 95 then like ps cs
      else if p = 92 then (case ps of [] \<Rightarrow> False | q # qs \<Rightarrow> q = c \<and> like qs cs)
      else p = c \<and> like ps cs)"

text \<open>
  \<^verbatim>\<open>ILIKE\<close> matches without regard to case: the store lower-cases the pattern and the
  text and matches them with \<^verbatim>\<open>LIKE\<close>. How a text is lower-cased is given by the
  locale of the database, which is not part of the repository: the operations that
  search take it as the parameter \<open>lc\<close>, the lower-casing of a text. Under the C
  locale it changes the letters A to Z and nothing else; other locales change other
  letters too, and need not work character by character.
\<close>

definition ilike :: "(ustring \<Rightarrow> ustring) \<Rightarrow> ustring \<Rightarrow> ustring \<Rightarrow> bool" where
  "ilike lc s pat = like (lc pat) (lc s)"

section \<open>The Team model\<close>

text \<open>
  Every operation takes the store and returns what the JavaScript method returns; an
  operation that writes also returns the store after it. \<open>Inl\<close> is the exception the
  query raises, with the store as it was. \<open>now\<close> is \<^verbatim>\<open>CURRENT_TIMESTAMP\<close>.
\<close>

definition Team_create ::
  "nat \<Rightarrow> ustring \<Rightarrow> ustring \<Rightarrow> ustring \<Rightarrow> ustring \<Rightarrow> int \<Rightarrow> db \<Rightarrow> error + (team \<times> db)" where
  "Team_create now teamName teamLogo teamColor descr userId d =
     and_then (varchar 255 teamName) (\<lambda>name.
     and_then (varchar 50 teamLogo) (\<lambda>logo.
     and_then (varchar 7 teamColor) (\<lambda>color.
     and_then (text_param descr) (\<lambda>dsc.
       if \<not> user_exists userId d then Inl ForeignKeyViolation
       else
         let row = \<lparr>t_id = next_team_id d, team_name = name, team_logo = Some logo,
                    team_color = Some color, description = Some dsc, t_user_id = userId,
                    t_created_at = now, t_updated_at = now\<rparr>
         in Inr (row, d\<lparr>teams := teams d @ [row], next_team_id := next_team_id d + 1\<rparr>)))))"

definition Team_findAllByUserId :: "(ustring \<Rightarrow> 'k::linorder) \<Rightarrow> int \<Rightarrow> db \<Rightarrow> team_row list" where
  "Team_findAllByUserId coll userId d =
     map select_team
       (sort_key (\<lambda>t. coll (team_name t)) (filter (\<lambda>t. t_user_id t = userId) (teams d)))"

definition Team_findById :: "int \<Rightarrow> int \<Rightarrow> db \<Rightarrow> team_row option" where
  "Team_findById id' userId d =
     first_row (map select_team (filter (\<lambda>t. t_id t = id' \<and> t_user_id t = userId) (teams d)))"

text \<open>\<^verbatim>\<open>COUNT(p.id)\<close> over \<^verbatim>\<open>teams t LEFT JOIN players p ON t.id = p.team_id\<close>,
  grouped by the team.\<close>

definition count_players :: "team \<Rightarrow> db \<Rightarrow> nat" where
  "count_players t d = length (filter (\<lambda>p. on_team p t) (players d))"

definition Team_findByIdWithPlayerCount :: "int \<Rightarrow> int \<Rightarrow> db \<Rightarrow> (team_row \<times> nat) option" where
  "Team_findByIdWithPlayerCount id' userId d =
     first_row (map (\<lambda>t. (select_team t, count_players t d))
                  (filter (\<lambda>t. t_id t = id' \<and> t_user_id t = userId) (teams d)))"

definition Team_findAllWithPlayerCounts ::
  "(ustring \<Rightarrow> 'k::linorder) \<Rightarrow> int \<Rightarrow> db \<Rightarrow> (team_row \<times> nat) list" where
  "Team_findAllWithPlayerCounts coll userId d =
     map (\<lambda>t. (select_team t, count_players t d))
       (sort_key (\<lambda>t. coll (team_name t)) (filter (\<lambda>t. t_user_id t = userId) (teams d)))"

definition Team_update ::
  "nat \<Rightarrow> int \<Rightarrow> ustring \<Rightarrow> ustring \<Rightarrow> ustring \<Rightarrow> ustring \<Rightarrow> int \<Rightarrow> db \<Rightarrow> error + (bool \<times> db)" where
  "Team_update now id' teamName teamLogo teamColor descr userId d =
     and_then (varchar 255 teamName) (\<lambda>name.
     and_then (varchar 50 teamLogo) (\<lambda>logo.
     and_then (varchar 7 teamColor) (\<lambda>color.
     and_then (text_param descr) (\<lambda>dsc.
       let hit = (\<lambda>t. t_id t = id' \<and> t_user_id t = userId)
       in Inr (list_ex hit (teams d),
               d\<lparr>teams := map (\<lambda>t. if hit t
                                      then t\<lparr>team_name := name, team_logo := Some logo,
                                             team_color := Some color, description := Some dsc,
                                             t_updated_at := now\<rparr>
                                      else t) (teams d)\<rparr>)))))"

text \<open>
  \<^verbatim>\<open>DELETE FROM teams WHERE id = $1 AND user_id = $2\<close>. The players' foreign key is
  declared \<^verbatim>\<open>ON DELETE SET NULL\<close>: the store nulls the team id of every player row
  that references a deleted team.
\<close>

definition Team_delete :: "int \<Rightarrow> int \<Rightarrow> db \<Rightarrow> bool \<times> db" where
  "Team_delete id' userId d =
     (let hit = (\<lambda>t. t_id t = id' \<and> t_user_id t = userId);
          gone = filter hit (teams d)
      in (gone \<noteq> [],
          d\<lparr>teams := filter (\<lambda>t. \<not> hit t) (teams d),
            players := map (\<lambda>p. if list_ex (on_team p) gone then p\<lparr>team_id := None\<rparr> else p)
                         (players d)\<rparr>))"

definition Team_countByUserId :: "int \<Rightarrow> db \<Rightarrow> nat" where
  "Team_countByUserId userId d = length (filter (\<lambda>t. t_user_id t = userId) (teams d))"

definition Team_getTeamHierarchy ::
  "(ustring \<Rightarrow> 'k::linorder) \<Rightarrow> int \<Rightarrow> int \<Rightarrow> db \<Rightarrow> (team_row \<times> player_row list) option" where
  "Team_getTeamHierarchy coll teamId userId d =
     (case Team_findById teamId userId d of
        None \<Rightarrow> None
      | Some team \<Rightarrow>
          Some (team,
                map select_player
                  (sort_key (roster_key coll)
                     (filter (\<lambda>p. team_id p = Some teamId \<and> p_user_id p = userId) (players d)))))"

section \<open>The Player model\<close>

definition Player_create ::
  "nat \<Rightarrow> ustring \<Rightarrow> ustring option \<Rightarrow> int option \<Rightarrow> int option \<Rightarrow> int \<Rightarrow> db
     \<Rightarrow> error + (player \<times> db)" where
  "Player_create now playerName pos jerseyNumber teamId userId d =
     and_then (varchar 255 playerName) (\<lambda>name.
     and_then (nullable (varchar 100) pos) (\<lambda>pos'.
       if \<not> user_exists userId d \<or> \<not> team_ref_ok (or_null teamId) d then Inl ForeignKeyViolation
       else
         let row = \<lparr>p_id = next_player_id d, player_name = name, position = pos',
                    jersey_number = jerseyNumber, team_id = or_null teamId, p_user_id = userId,
                    p_created_at = now, p_updated_at = now\<rparr>
         in Inr (row, d\<lparr>players := players d @ [row],
                        next_player_id := next_player_id d + 1\<rparr>)))"

definition Player_findAllByUserId ::
  "(ustring \<Rightarrow> 'k::linorder) \<Rightarrow> int \<Rightarrow> db \<Rightarrow> player_listing list" where
  "Player_findAllByUserId coll userId d =
     map select_listing
       (sort_key (listing_key coll)
          (filter (\<lambda>r. p_user_id (fst r) = userId) (left_join (players d) (teams d))))"

definition Player_findGlobalPlayers ::
  "(ustring \<Rightarrow> 'k::linorder) \<Rightarrow> int \<Rightarrow> db \<Rightarrow> player_row list" where
  "Player_findGlobalPlayers coll userId d =
     map select_player
       (sort_key (\<lambda>p. coll (player_name p))
          (filter (\<lambda>p. p_user_id p = userId \<and> team_id p = None) (players d)))"

definition Player_findAllByTeamId ::
  "(ustring \<Rightarrow> 'k::linorder) \<Rightarrow> int \<Rightarrow> int \<Rightarrow> db \<Rightarrow> player_row list" where
  "Player_findAllByTeamId coll teamId userId d =
     map select_player
       (sort_key (roster_key coll)
          (filter (\<lambda>p. team_id p = Some teamId \<and> p_user_id p = userId) (players d)))"

definition Player_findById :: "int \<Rightarrow> int \<Rightarrow> db \<Rightarrow> player_detail option" where
  "Player_findById id' userId d =
     first_row (map select_detail
                  (filter (\<lambda>r. p_id (fst r) = id' \<and> p_user_id (fst r) = userId)
                     (inner_join (players d) (teams d))))"

definition Player_update ::
  "nat \<Rightarrow> int \<Rightarrow> ustring \<Rightarrow> ustring option \<Rightarrow> int option \<Rightarrow> int option \<Rightarrow> int \<Rightarrow> db
     \<Rightarrow> error + (bool \<times> db)" where
  "Player_update now id' playerName pos jerseyNumber teamId userId d =
     and_then (varchar 255 playerName) (\<lambda>name.
     and_then (nullable (varchar 100) pos) (\<lambda>pos'.
       let hit = (\<lambda>p. p_id p = id' \<and> p_user_id p = userId)
       in if list_ex hit (players d) \<and> \<not> team_ref_ok (or_null teamId) d
          then Inl ForeignKeyViolation
          else Inr (list_ex hit (players d),
                    d\<lparr>players := map (\<lambda>p. if hit p
                                             then p\<lparr>player_name := name, position := pos',
                                                    jersey_number := jerseyNumber,
                                                    team_id := or_null teamId,
                                                    p_updated_at := now\<rparr>
                                             else p) (players d)\<rparr>)))"

definition Player_assignToTeam :: "nat \<Rightarrow> int \<Rightarrow> int \<Rightarrow> int \<Rightarrow> db \<Rightarrow> error + (bool \<times> db)" where
  "Player_assignToTeam now playerId teamId userId d =
     (let hit = (\<lambda>p. p_id p = playerId \<and> p_user_id p = userId)
      in if list_ex hit (players d) \<and> \<not> team_ref_ok (Some teamId) d
         then Inl ForeignKeyViolation
         else Inr (list_ex hit (players d),
                   d\<lparr>players := map (\<lambda>p. if hit p
                                            then p\<lparr>team_id := Some teamId, p_updated_at := now\<rparr>
                                            else p) (players d)\<rparr>))"

definition Player_unassignFromTeam :: "nat \<Rightarrow> int \<Rightarrow> int \<Rightarrow> db \<Rightarrow> bool \<times> db" where
  "Player_unassignFromTeam now playerId userId d =
     (let hit = (\<lambda>p. p_id p = playerId \<and> p_user_id p = userId)
      in (list_ex hit (players d),
          d\<lparr>players := map (\<lambda>p. if hit p then p\<lparr>team_id := None, p_updated_at := now\<rparr> else p)
                       (players d)\<rparr>))"

definition Player_delete :: "int \<Rightarrow> int \<Rightarrow> db \<Rightarrow> bool \<times> db" where
  "Player_delete id' userId d =
     (let hit = (\<lambda>p. p_id p = id' \<and> p_user_id p = userId)
      in (list_ex hit (players d), d\<lparr>players := filter (\<lambda>p. \<not> hit p) (players d)\<rparr>))"

definition Player_countByUserId :: "int \<Rightarrow> db \<Rightarrow> nat" where
  "Player_countByUserId userId d = length (filter (\<lambda>p. p_user_id p = userId) (players d))"

definition Player_countByTeamId :: "int \<Rightarrow> int \<Rightarrow> db \<Rightarrow> nat" where
  "Player_countByTeamId teamId userId d =
     length (filter (\<lambda>p. team_id p = Some teamId \<and> p_user_id p = userId) (players d))"

text \<open>The pattern is \<^verbatim>\<open>`%${searchQuery}%`\<close>. A null team name matches no pattern.\<close>

definition Player_search ::
  "(ustring \<Rightarrow> 'k::linorder) \<Rightarrow> (ustring \<Rightarrow> ustring) \<Rightarrow> ustring \<Rightarrow> int \<Rightarrow> db
     \<Rightarrow> error + player_listing list" where
  "Player_search coll lc searchQuery userId d =
     and_then (text_param ([37] @ searchQuery @ [37])) (\<lambda>pat.
       Inr (map select_listing
              (sort_key (listing_key coll)
                 (filter (\<lambda>r. p_user_id (fst r) = userId \<and>
                               (ilike lc (player_name (fst r)) pat \<or>
                                (case snd r of None \<Rightarrow> False
                                 | Some t \<Rightarrow> ilike lc (team_name t) pat)))
                    (left_join (players d) (teams d))))))"

section \<open>The handlers\<close>

text \<open>
  A handler takes the authenticated user's id (\<^verbatim>\<open>req.user.id\<close>), the route parameter
  as the integer the store reads from it (a route parameter that is no integer is not
  modelled), and the request body; it returns the response and the store after it. \<open>data\<close> is \<open>NoData\<close> when the response has no \<^verbatim>\<open>data\<close> field;
  \<^verbatim>\<open>data: null\<close> is \<open>Data None\<close>. A list response carries its length as \<^verbatim>\<open>count\<close>.
  Status 400 is the validation error, 404 not-found, 500 the caught exception.
\<close>

datatype 'a payload = NoData | Data 'a

record 'a response =
  status :: nat
  success :: bool
  message :: "string option"
  data_count :: "nat option"
  data :: "'a payload"

definition failure :: "nat \<Rightarrow> string \<Rightarrow> 'a response" where
  "failure code msg =
     \<lparr>status = code, success = False, message = Some msg, data_count = None, data = NoData\<rparr>"

definition succeed :: "nat \<Rightarrow> string \<Rightarrow> 'a \<Rightarrow> 'a response" where
  "succeed code msg x =
     \<lparr>status = code, success = True, message = Some msg, data_count = None, data = Data x\<rparr>"

record player_body =
  b_player_name :: "ustring option"
  b_position :: "ustring option"
  b_jersey_number :: "int option"
  b_team_id :: "int option"

record team_body =
  b_team_name :: "ustring option"
  b_team_logo :: "ustring option"
  b_team_color :: "ustring option"
  b_description :: "ustring option"

definition getPlayerById :: "int \<Rightarrow> int \<Rightarrow> db \<Rightarrow> player_detail response" where
  "getPlayerById userId id' d =
     (case Player_findById id' userId d of
        None \<Rightarrow> failure 404 ''Player not found.''
      | Some player \<Rightarrow>
          \<lparr>status = 200, success = True, message = None, data_count = None, data = Data player\<rparr>)"


definition updatePlayer ::
  "nat \<Rightarrow> int \<Rightarrow> int \<Rightarrow> player_body \<Rightarrow> db \<Rightarrow> player_detail option response \<times> db" where
  "updatePlayer now userId id' body d =
     (if \<not> truthy_text (b_player_name body) then (failure 400 ''Player name is required.'', d)
      else
        let cleanPlayerName = trim (case b_player_name body of None \<Rightarrow> [] | Some s \<Rightarrow> s);
            cleanPosition = trim_or_null (b_position body);
            cleanJerseyNumber = or_null (b_jersey_number body)
        in if length cleanPlayerName = 0
           then (failure 400 ''Player name cannot be empty.'', d)
           else
             (case Player_update now id' cleanPlayerName cleanPosition cleanJerseyNumber
                     (or_null (b_team_id body)) userId d of
                Inl e \<Rightarrow> (failure 500 ''Server error while updating player.'', d)
              | Inr (ok, d') \<Rightarrow>
                  if \<not> ok then (failure 404 ''Player not found or update failed.'', d')
                  else (succeed 200 ''Player updated successfully.''
                          (Player_findById id' userId d'), d')))"

definition assignPlayerToTeam ::
  "nat \<Rightarrow> int \<Rightarrow> int \<Rightarrow> int option \<Rightarrow> db \<Rightarrow> player_detail option response \<times> db" where
  "assignPlayerToTeam now userId playerId team_id' d =
     (case team_id' of
        None \<Rightarrow> (failure 400 ''Team ID is required.'', d)
      | Some t \<Rightarrow>
          if t = 0 then (failure 400 ''Team ID is required.'', d)
          else
            (case Player_assignToTeam now playerId t userId d of
               Inl e \<Rightarrow> (failure 500 ''Server error while assigning player.'', d)
             | Inr (ok, d') \<Rightarrow>
                 if \<not> ok then (failure 404 ''Player not found or assignment failed.'', d')
                 else (succeed 200 ''Player assigned to team successfully.''
                         (Player_findById playerId userId d'), d')))"

definition searchPlayers ::
  "(ustring \<Rightarrow> 'k::linorder) \<Rightarrow> (ustring \<Rightarrow> ustring) \<Rightarrow> int \<Rightarrow> ustring option \<Rightarrow> db
     \<Rightarrow> player_listing list response" where
  "searchPlayers coll lc userId q d =
     (case q of
        None \<Rightarrow> failure 400 ''Search query is required.''
      | Some s \<Rightarrow>
          if s = [] \<or> length (trim s) = 0 then failure 400 ''Search query is required.''
          else
            (case Player_search coll lc (trim s) userId d of
               Inl e \<Rightarrow> failure 500 ''Server error while searching players.''
             | Inr rows \<Rightarrow>
                 \<lparr>status = 200, success = True, message = None,
                  data_count = Some (length rows), data = Data rows\<rparr>))"


definition updateTeam ::
  "nat \<Rightarrow> int \<Rightarrow> int \<Rightarrow> team_body \<Rightarrow> db \<Rightarrow> team_row option response \<times> db" where
  "updateTeam now userId id' body d =
     (if \<not> truthy_text (b_team_name body) then (failure 400 ''Team name is required.'', d)
      else
        let cleanTeamName = trim (case b_team_name body of None \<Rightarrow> [] | Some s \<Rightarrow> s);
            cleanDescription = trim_or_default [] (b_description body);
            cleanTeamLogo = trim_or_default [9917] (b_team_logo body);
            cleanTeamColor = or_default (ascii ''#0ea5e9'') (b_team_color body)
        in if length cleanTeamName = 0
           then (failure 400 ''Team name cannot be empty.'', d)
           else
             (case Team_update now id' cleanTeamName cleanTeamLogo cleanTeamColor
                     cleanDescription userId d of
                Inl e \<Rightarrow> (failure 500 ''Server error while updating team.'', d)
              | Inr (ok, d') \<Rightarrow>
                  if \<not> ok then (failure 404 ''Team not found or update failed.'', d')
                  else (succeed 200 ''Team updated successfully.''
                          (Team_findById id' userId d'), d')))"

section \<open>Store invariants\<close>

text \<open>
  \<open>keys_ok\<close>: the primary keys. Ids are unique in each table, and below the next value
  of the table's sequence.
\<close>

definition keys_ok :: "db \<Rightarrow> bool" where
  "keys_ok d =
     (distinct (map t_id (teams d)) \<and> distinct (map p_id (players d)) \<and>
      list_all (\<lambda>t. t_id t < next_team_id d) (teams d) \<and>
      list_all (\<lambda>p. p_id p < next_player_id d) (players d))"

text \<open>\<open>refs_ok\<close>: the foreign key of the players table into the teams table.\<close>

definition refs_ok :: "db \<Rightarrow> bool" where
  "refs_ok d = list_all (\<lambda>p. team_ref_ok (team_id p) d) (players d)"

text \<open>\<open>same_owner\<close>: every team a player references belongs to the player's user.\<close>

definition same_owner :: "db \<Rightarrow> bool" where
  "same_owner d =
     list_all (\<lambda>p. list_all (\<lambda>t. on_team p t \<longrightarrow> t_user_id t = p_user_id p) (teams d)) (players d)"

text \<open>The writes of the two models, as one type, and the store after a write. A write
  that raises leaves the store as it was.\<close>

datatype mutation =
    PlayerCreate ustring "ustring option" "int option" "int option" int
  | PlayerUpdate int ustring "ustring option" "int option" "int option" int
  | PlayerAssign int int int
  | PlayerUnassign int int
  | PlayerDelete int int
  | TeamCreate ustring ustring ustring ustring int
  | TeamUpdate int ustring ustring ustring ustring int
  | TeamDelete int int

definition after :: "error + ('a \<times> db) \<Rightarrow> db \<Rightarrow> db" where
  "after r d = (case r of Inl e \<Rightarrow> d | Inr (x, d') \<Rightarrow> d')"

fun perform :: "nat \<Rightarrow> mutation \<Rightarrow> db \<Rightarrow> db" where
  "perform now (PlayerCreate n p j t u) d = after (Player_create now n p j t u d) d"
| "perform now (PlayerUpdate i n p j t u) d = after (Player_update now i n p j t u d) d"
| "perform now (PlayerAssign i t u) d = after (Player_assignToTeam now i t u d) d"
| "perform now (PlayerUnassign i u) d = snd (Player_unassignFromTeam now i u d)"
| "perform now (PlayerDelete i u) d = snd (Player_delete i u d)"
| "perform now (TeamCreate n l c ds u) d = after (Team_create now n l c ds u d) d"
| "perform now (TeamUpdate i n l c ds u) d = after (Team_update now i n l c ds u d) d"
| "perform now (TeamDelete i u) d = snd (Team_delete i u d)"

section \<open>What the operations are to do\<close>

text \<open>
  The store as one user's reads see it: \<open>own_teams\<close> keeps the user's rows of the teams
  table, \<open>own_players\<close> the user's rows of the players table, \<open>own_rows\<close> the user's
  rows of both, so that no row of another user is left. \<open>others_rows\<close> are the rows of
  all other users. \<open>no_row_written\<close> holds of the result of a write that raised or that
  found no row and left the store as it was. \<open>caller\<close> is the user on whose behalf a
  write is made.
\<close>

definition own_teams :: "int \<Rightarrow> db \<Rightarrow> db" where
  "own_teams u d = d\<lparr>teams := filter (\<lambda>t. t_user_id t = u) (teams d)\<rparr>"

definition own_players :: "int \<Rightarrow> db \<Rightarrow> db" where
  "own_players u d = d\<lparr>players := filter (\<lambda>p. p_user_id p = u) (players d)\<rparr>"

definition own_rows :: "int \<Rightarrow> db \<Rightarrow> db" where
  "own_rows u d = own_teams u (own_players u d)"

definition others_rows :: "int \<Rightarrow> db \<Rightarrow> team list \<times> player list" where
  "others_rows u d =
     (filter (\<lambda>t. t_user_id t \<noteq> u) (teams d), filter (\<lambda>p. p_user_id p \<noteq> u) (players d))"

definition no_row_written :: "error + (bool \<times> db) \<Rightarrow> db \<Rightarrow> bool" where
  "no_row_written r d = (case r of Inl e \<Rightarrow> True | Inr x \<Rightarrow> x = (False, d))"

text \<open>\<open>int32 i\<close>: \<open>i\<close> is a value of the type \<^verbatim>\<open>INTEGER\<close>, as every id of a row is.\<close>

definition int32 :: "int \<Rightarrow> bool" where
  "int32 i = (- 2147483648 \<le> i \<and> i \<le> 2147483647)"

fun caller :: "mutation \<Rightarrow> int" where
  "caller (PlayerCreate n p j t u) = u"
| "caller (PlayerUpdate i n p j t u) = u"
| "caller (PlayerAssign i t u) = u"
| "caller (PlayerUnassign i u) = u"
| "caller (PlayerDelete i u) = u"
| "caller (TeamCreate n l c ds u) = u"
| "caller (TeamUpdate i n l c ds u) = u"
| "caller (TeamDelete i u) = u"

text \<open>
  What the listing of a player is to hold: the player with the team its team id names,
  or with no team. \<open>listed_before\<close> is the order the listing is to have, on two rows of
  the result.
\<close>

definition with_team :: "db \<Rightarrow> player \<Rightarrow> player \<times> team option" where
  "with_team d p = (p, find (on_team p) (teams d))"

definition listed_before ::
  "(ustring \<Rightarrow> 'k::linorder) \<Rightarrow> player_listing \<Rightarrow> player_listing \<Rightarrow> bool" where
  "listed_before coll a b =
     (if pl_team_id a = None \<and> pl_team_id b \<noteq> None then True
      else if pl_team_id a \<noteq> None \<and> pl_team_id b = None then False
      else map_option coll (pl_team_name a) < map_option coll (pl_team_name b) \<or>
           (map_option coll (pl_team_name a) = map_option coll (pl_team_name b) \<and>
            coll (pl_player_name a) \<le> coll (pl_player_name b)))"

text \<open>
  What a search is to find, for a locale that lower-cases a text character by
  character, with the function \<open>f\<close>. \<open>contains_ci f q s\<close>: the text \<open>s\<close> contains \<open>q\<close> as
  a contiguous part once both are lower-cased. \<open>text_matches f q d p\<close>: the name of
  player \<open>p\<close>, or the name of its team, contains \<open>q\<close>. \<open>well_formed q\<close>: \<open>q\<close> holds
  neither the code point 0 nor a surrogate. \<open>plain_text q\<close>: \<open>q\<close> is well-formed and
  holds none of \<^verbatim>\<open>%\<close>, \<^verbatim>\<open>_\<close> and the backslash. \<open>blank q\<close>: the query parameter is
  absent, empty or white space only.
\<close>

definition contains_ci :: "(nat \<Rightarrow> nat) \<Rightarrow> ustring \<Rightarrow> ustring \<Rightarrow> bool" where
  "contains_ci f q s = sublist (map f q) (map f s)"

definition text_matches :: "(nat \<Rightarrow> nat) \<Rightarrow> ustring \<Rightarrow> db \<Rightarrow> player \<Rightarrow> bool" where
  "text_matches f q d p =
     (contains_ci f q (player_name p) \<or>
      (case find (on_team p) (teams d) of
         None \<Rightarrow> False
       | Some t \<Rightarrow> contains_ci f q (team_name t)))"

definition well_formed :: "ustring \<Rightarrow> bool" where
  "well_formed q = list_all (\<lambda>c. c \<noteq> 0 \<and> (c < 55296 \<or> 57343 < c)) q"

definition plain_text :: "ustring \<Rightarrow> bool" where
  "plain_text q = (well_formed q \<and> list_all (\<lambda>c. c \<noteq> 37 \<and> c \<noteq> 92 \<and> c \<noteq> 95) q)"

text \<open>
  What a pattern stands for. \<open>matched p s\<close>: the text \<open>s\<close> is of the pattern \<open>p\<close>, where
  \<^verbatim>\<open>%\<close> stands for any text, \<^verbatim>\<open>_\<close> for any one character, a backslash and the
  character after it for that character, and every other character for itself.
  \<open>pattern_matches f x d p\<close>: the name of player \<open>p\<close>, or the name of its team, is of
  the pattern \<^verbatim>\<open>%x%\<close>, both lower-cased.
\<close>

inductive matched :: "ustring \<Rightarrow> ustring \<Rightarrow> bool" where
  empty: "matched [] []"
| any_text: "matched p s \<Longrightarrow> matched (37 # p) (u @ s)"
| any_char: "matched p s \<Longrightarrow> matched (95 # p) (c # s)"
| escaped: "matched p s \<Longrightarrow> matched (92 # c # p) (c # s)"
| itself: "c \<noteq> 37 \<Longrightarrow> c \<noteq> 95 \<Longrightarrow> c \<noteq> 92 \<Longrightarrow> matched p s \<Longrightarrow> matched (c # p) (c # s)"

definition pattern_matches :: "(nat \<Rightarrow> nat) \<Rightarrow> ustring \<Rightarrow> db \<Rightarrow> player \<Rightarrow> bool" where
  "pattern_matches f x d p =
     (matched (37 # map f x @ [37]) (map f (player_name p)) \<or>
      (case find (on_team p) (teams d) of
         None \<Rightarrow> False
       | Some t \<Rightarrow> matched (37 # map f x @ [37]) (map f (team_name t))))"

definition blank :: "ustring option \<Rightarrow> bool" where
  "blank q = (case q of None \<Rightarrow> True | Some s \<Rightarrow> trim s = [])"

text \<open>
  \<open>own_team_ref r u d\<close>: the team id \<open>r\<close> is null or names teams of user \<open>u\<close> only.
  \<open>sets_own_team w d\<close>: the team id that the write \<open>w\<close> stores in a player row, if
  it stores one, names a team of the user who makes the write.
\<close>

definition own_team_ref :: "int option \<Rightarrow> int \<Rightarrow> db \<Rightarrow> bool" where
  "own_team_ref r u d =
     (case r of None \<Rightarrow> True
      | Some t \<Rightarrow> list_all (\<lambda>x. t_id x = t \<longrightarrow> t_user_id x = u) (teams d))"

fun sets_own_team :: "mutation \<Rightarrow> db \<Rightarrow> bool" where
  "sets_own_team (PlayerCreate n p j t u) d = own_team_ref (or_null t) u d"
| "sets_own_team (PlayerUpdate i n p j t u) d = own_team_ref (or_null t) u d"
| "sets_own_team (PlayerAssign i t u) d = own_team_ref (Some t) u d"
| "sets_own_team (PlayerUnassign i u) d = True"
| "sets_own_team (PlayerDelete i u) d = True"
| "sets_own_team (TeamCreate n l c ds u) d = True"
| "sets_own_team (TeamUpdate i n l c ds u) d = True"
| "sets_own_team (TeamDelete i u) d = True"

section \<open>A sample store\<close>

text \<open>
  Two users. User 1 owns the team Lions and the players Zed, Amy and Bob, of whom Amy
  plays for the Lions; user 2 owns the team Tigers and its player Cy.
\<close>

definition mk_team :: "int \<Rightarrow> string \<Rightarrow> int \<Rightarrow> team" where
  "mk_team i n u =
     \<lparr>t_id = i, team_name = ascii n, team_logo = Some [9917],
      team_color = Some (ascii ''#0ea5e9''), description = Some [], t_user_id = u,
      t_created_at = 0, t_updated_at = 0\<rparr>"

definition mk_player :: "int \<Rightarrow> string \<Rightarrow> int option \<Rightarrow> int \<Rightarrow> player" where
  "mk_player i n t u =
     \<lparr>p_id = i, player_name = ascii n, position = None, jersey_number = None,
      team_id = t, p_user_id = u, p_created_at = 0, p_updated_at = 0\<rparr>"

definition sample :: db where
  "sample =
     \<lparr>users = [1, 2],
      teams = [mk_team 1 ''Lions'' 1, mk_team 2 ''Tigers'' 2],
      players = [mk_player 1 ''Zed'' None 1, mk_player 2 ''Amy'' (Some 1) 1,
                 mk_player 3 ''Bob'' None 1, mk_player 4 ''Cy'' (Some 2) 2],
      next_team_id = 3, next_player_id = 5\<rparr>"

text \<open>The collation of the examples: code point order. The locale of the examples:
  the C locale, which lower-cases the letters A to Z and no other character.\<close>

definition ascii_key :: "ustring \<Rightarrow> nat list" where
  "ascii_key s = s"

definition ascii_lower :: "nat \<Rightarrow> nat" where
  "ascii_lower c = (if 65 \<le> c \<and> c \<le> 90 then c + 32 else c)"

text \<open>The listing row of Amy in the sample store.\<close>

definition amy_listing :: player_listing where
  "amy_listing =
     \<lparr>pl_id = 2, pl_player_name = ascii ''Amy'', pl_position = None, pl_jersey_number = None,
      pl_team_id = Some 1, pl_team_name = Some (ascii ''Lions''),
      pl_team_color = Some (ascii ''#0ea5e9''), pl_team_logo = Some [9917],
      pl_created_at = 0, pl_updated_at = 0\<rparr>"

text \<open>A request that creates the team Bears with no logo, an empty colour and no
  description, and the row it creates in the sample store at time 7.\<close>

definition bears_body :: team_body where
  "bears_body = \<lparr>b_team_name = Some (ascii '' Bears ''), b_team_logo = None,
                  b_team_color = Some [], b_description = None\<rparr>"


text \<open>Requests on the sample store: one that renames nothing and takes Amy off her team,
  with jersey number 0; one that creates the player Dan with jersey number 0 and team id
  0, and the row it creates at time 7.\<close>

definition amy_body :: player_body where
  "amy_body = \<lparr>b_player_name = Some (ascii ''Amy''), b_position = None,
                b_jersey_number = Some 0, b_team_id = None\<rparr>"



text \<open>The rows that \<^verbatim>\<open>Player.findById\<close> returns for Amy in the sample store, and for
  Cy once Cy's team id is 1; the sample store after user 2 has assigned Cy to team 1,
  the Lions of user 1, at time 7.\<close>

definition amy_detail :: player_detail where
  "amy_detail =
     \<lparr>pd_id = 2, pd_player_name = ascii ''Amy'', pd_position = None, pd_jersey_number = None,
      pd_team_id = Some 1, pd_team_name = ascii ''Lions'',
      pd_team_color = Some (ascii ''#0ea5e9''), pd_created_at = 0, pd_updated_at = 0\<rparr>"

definition cy_detail :: player_detail where
  "cy_detail =
     \<lparr>pd_id = 4, pd_player_name = ascii ''Cy'', pd_position = None, pd_jersey_number = None,
      pd_team_id = Some 1, pd_team_name = ascii ''Lions'',
      pd_team_color = Some (ascii ''#0ea5e9''), pd_created_at = 0, pd_updated_at = 7\<rparr>"

definition cy_on_lions :: db where
  "cy_on_lions =
     sample\<lparr>players := [mk_player 1 ''Zed'' None 1, mk_player 2 ''Amy'' (Some 1) 1,
                          mk_player 3 ''Bob'' None 1,
                          (mk_player 4 ''Cy'' (Some 1) 2)\<lparr>p_updated_at := 7\<rparr>]\<rparr>"

text \<open>The sample store after user 1 has assigned Bob to team \<open>t\<close> at time 7.\<close>

definition bob_with :: "int \<Rightarrow> db" where
  "bob_with t =
     sample\<lparr>players := [mk_player 1 ''Zed'' None 1, mk_player 2 ''Amy'' (Some 1) 1,
                          (mk_player 3 ''Bob'' (Some t) 1)\<lparr>p_updated_at := 7\<rparr>,
                          mk_player 4 ''Cy'' (Some 2) 2]\<rparr>"

section \<open>Properties of the store\<close>

subsection \<open>The sample store\<close>

lemma keys_ok_sample: "keys_ok sample"
  by (simp add: keys_ok_def sample_def mk_team_def mk_player_def)

lemma refs_ok_sample: "refs_ok sample"
  by (simp add: refs_ok_def sample_def mk_team_def mk_player_def team_ref_ok_def)

lemma same_owner_sample: "same_owner sample"
  by (simp add: same_owner_def sample_def mk_team_def mk_player_def on_team_def)

subsection \<open>What a write that succeeds has done\<close>

lemma and_then_Inr: "and_then r f = Inr y \<Longrightarrow> \<exists>x. r = Inr x \<and> f x = Inr y"
  by (cases r) (simp_all add: and_then_def)

lemma Team_create_Inr:
  assumes "Team_create now n l c ds u d = Inr (t, d')"
  shows "\<exists>n' l' c' ds'. varchar 255 n = Inr n' \<and> varchar 50 l = Inr l' \<and>
           varchar 7 c = Inr c' \<and> text_param ds = Inr ds' \<and> user_exists u d \<and>
           t = \<lparr>t_id = next_team_id d, team_name = n', team_logo = Some l',
                team_color = Some c', description = Some ds', t_user_id = u,
                t_created_at = now, t_updated_at = now\<rparr> \<and>
           d' = d\<lparr>teams := teams d @ [t], next_team_id := next_team_id d + 1\<rparr>"
  using assms
  by (auto simp: Team_create_def and_then_def Let_def split: sum.splits if_splits)

lemma Team_update_Inr:
  assumes "Team_update now i n l c ds u d = Inr (ok, d')"
  shows "\<exists>n' l' c' ds'. d' = d\<lparr>teams := map (\<lambda>t. if t_id t = i \<and> t_user_id t = u
                                      then t\<lparr>team_name := n', team_logo := Some l',
                                             team_color := Some c', description := Some ds',
                                             t_updated_at := now\<rparr>
                                      else t) (teams d)\<rparr>"
  using assms
  by (auto simp: Team_update_def and_then_def Let_def split: sum.splits if_splits)

lemma Player_update_Inr:
  assumes "Player_update now i n pos j t u d = Inr (ok, d')"
  shows "\<exists>n' pos'. varchar 255 n = Inr n' \<and> nullable (varchar 100) pos = Inr pos' \<and>
           ok = list_ex (\<lambda>p. p_id p = i \<and> p_user_id p = u) (players d) \<and>
           (ok \<longrightarrow> team_ref_ok (or_null t) d) \<and>
           d' = d\<lparr>players :=
                  map (\<lambda>p. if p_id p = i \<and> p_user_id p = u
                           then p\<lparr>player_name := n', position := pos', jersey_number := j,
                                  team_id := or_null t, p_updated_at := now\<rparr>
                           else p) (players d)\<rparr>"
  using assms
  by (auto simp: Player_update_def and_then_def Let_def split: sum.splits if_splits)

lemma Player_create_Inr:
  assumes "Player_create now n pos j t u d = Inr (p, d')"
  shows "\<exists>n' pos'. varchar 255 n = Inr n' \<and> nullable (varchar 100) pos = Inr pos' \<and>
           user_exists u d \<and> team_ref_ok (or_null t) d \<and>
           p = \<lparr>p_id = next_player_id d, player_name = n', position = pos', jersey_number = j,
                team_id = or_null t, p_user_id = u, p_created_at = now, p_updated_at = now\<rparr> \<and>
           d' = d\<lparr>players := players d @ [p], next_player_id := next_player_id d + 1\<rparr>"
  using assms
  by (auto simp: Player_create_def and_then_def Let_def split: sum.splits if_splits)

subsection \<open>Deleting a team\<close>

lemma Team_delete_hit:
  "fst (Team_delete tid uid d) = list_ex (\<lambda>t. t_id t = tid \<and> t_user_id t = uid) (teams d)"
  by (simp add: Team_delete_def Let_def list_ex_iff filter_empty_conv)

lemma on_team_gone:
  "list_ex (on_team p) (filter (\<lambda>t. t_id t = tid \<and> t_user_id t = uid) ts) =
     (team_id p = Some tid \<and> list_ex (\<lambda>t. t_id t = tid \<and> t_user_id t = uid) ts)"
  by (induction ts) (auto simp: on_team_def)

lemma Team_delete_players:
  "list_ex (\<lambda>t. t_id t = tid \<and> t_user_id t = uid) (teams d) \<Longrightarrow>
   players (snd (Team_delete tid uid d)) =
     map (\<lambda>p. if team_id p = Some tid then p\<lparr>team_id := None\<rparr> else p) (players d)"
  by (simp add: Team_delete_def Let_def on_team_gone)

lemma global_player_listed:
  "p \<in> set (players d) \<Longrightarrow> team_id p = None \<Longrightarrow>
   select_player p \<in> set (Player_findGlobalPlayers coll (p_user_id p) d)"
  by (simp add: Player_findGlobalPlayers_def)

lemma Team_delete_gone: "Team_findById tid uid (snd (Team_delete tid uid d)) = None"
proof -
  have "filter (\<lambda>t. t_id t = tid \<and> t_user_id t = uid)
          (filter (\<lambda>t. \<not> (t_id t = tid \<and> t_user_id t = uid)) (teams d)) = []"
    by (induction "teams d") (auto simp: filter_empty_conv)
  then show ?thesis
    by (simp add: Team_findById_def Team_delete_def Let_def first_row_def)
qed

text \<open>
  C2. When \<^verbatim>\<open>Team.delete\<close> succeeds, the team is no longer found, and every player
  that referenced the team is still in the players table, the same row but for a null
  team id; the players table has the same ids in the same order as before, so no player
  row was deleted; and the player is among the global players of its owner.
\<close>

theorem team_delete_keeps_players:
  assumes "Team_delete tid uid d = (True, d')"
    and "p \<in> set (players d)"
    and "team_id p = Some tid"
  shows "Team_findById tid uid d' = None \<and>
         p\<lparr>team_id := None\<rparr> \<in> set (players d') \<and>
         map p_id (players d') = map p_id (players d) \<and>
         select_player p \<in> set (Player_findGlobalPlayers coll (p_user_id p) d')"
proof -
  from assms(1) have hit: "list_ex (\<lambda>t. t_id t = tid \<and> t_user_id t = uid) (teams d)"
    using Team_delete_hit [of tid uid d] by simp
  from assms(1) have d': "d' = snd (Team_delete tid uid d)" by simp
  have ps: "players d' =
      map (\<lambda>p. if team_id p = Some tid then p\<lparr>team_id := None\<rparr> else p) (players d)"
    unfolding d' by (rule Team_delete_players [OF hit])
  have 1: "p\<lparr>team_id := None\<rparr> \<in> set (players d')"
    unfolding ps using assms(2,3) by (auto simp: image_iff intro!: bexI [of _ p])
  have 2: "map p_id (players d') = map p_id (players d)"
    unfolding ps by (induction "players d") (auto simp: comp_def)
  have "select_player (p\<lparr>team_id := None\<rparr>)
          \<in> set (Player_findGlobalPlayers coll (p_user_id (p\<lparr>team_id := None\<rparr>)) d')"
    by (rule global_player_listed [OF 1]) simp
  then have 3: "select_player p \<in> set (Player_findGlobalPlayers coll (p_user_id p) d')"
    by (simp add: select_player_def)
  have 4: "Team_findById tid uid d' = None"
    unfolding d' by (rule Team_delete_gone)
  from 4 1 2 3 show ?thesis by (intro conjI)
qed

theorem team_delete_keeps_players_witness:
  "fst (Team_delete 1 1 sample) = True \<and>
   mk_player 2 ''Amy'' (Some 1) 1 \<in> set (players sample) \<and>
   team_id (mk_player 2 ''Amy'' (Some 1) 1) = Some 1 \<and>
   Team_findById 1 1 (snd (Team_delete 1 1 sample)) = None \<and>
   mk_player 2 ''Amy'' None 1 \<in> set (players (snd (Team_delete 1 1 sample))) \<and>
   map p_id (players (snd (Team_delete 1 1 sample))) = [1, 2, 3, 4] \<and>
   select_player (mk_player 2 ''Amy'' None 1)
     \<in> set (Player_findGlobalPlayers ascii_key 1 (snd (Team_delete 1 1 sample)))"
proof -
  have r: "fst (Team_delete 1 1 sample) = True"
    by (simp add: Team_delete_def sample_def mk_team_def Let_def)
  have m: "mk_player 2 ''Amy'' (Some 1) 1 \<in> set (players sample)"
    by (simp add: sample_def)
  have t: "team_id (mk_player 2 ''Amy'' (Some 1) 1) = Some 1"
    by (simp add: mk_player_def)
  have e: "Team_delete 1 1 sample = (True, snd (Team_delete 1 1 sample))"
    using r by (simp add: prod_eq_iff)
  have u: "(mk_player 2 ''Amy'' (Some 1) 1)\<lparr>team_id := None\<rparr> = mk_player 2 ''Amy'' None 1"
    by (simp add: mk_player_def)
  have s: "select_player (mk_player 2 ''Amy'' (Some 1) 1) = select_player (mk_player 2 ''Amy'' None 1)"
    by (simp add: mk_player_def select_player_def)
  have o: "p_user_id (mk_player 2 ''Amy'' (Some 1) 1) = 1"
    by (simp add: mk_player_def)
  have i: "map p_id (players sample) = [1, 2, 3, 4]"
    by (simp add: sample_def mk_player_def)
  show ?thesis
    using team_delete_keeps_players [OF e m t, of ascii_key] r m t u s o i by simp
qed

subsection \<open>Ownership\<close>

lemma map_if_no_hit: "\<not> list_ex P xs \<Longrightarrow> map (\<lambda>x. if P x then f x else x) xs = xs"
  by (induction xs) auto

lemma filter_no_hit: "\<not> list_ex P xs \<Longrightarrow> filter P xs = []"
  by (induction xs) auto

lemma filter_not_no_hit: "\<not> list_ex P xs \<Longrightarrow> filter (\<lambda>x. \<not> P x) xs = xs"
  by (induction xs) auto

lemma other_team_no_hit:
  assumes "keys_ok d" "t \<in> set (teams d)" "t_user_id t \<noteq> u"
  shows "\<not> list_ex (\<lambda>x. t_id x = t_id t \<and> t_user_id x = u) (teams d)"
proof -
  from assms(1) have "inj_on t_id (set (teams d))"
    by (simp add: keys_ok_def distinct_map)
  with assms(2,3) show ?thesis
    by (auto simp: list_ex_iff dest: inj_onD)
qed

lemma absent_team_no_hit:
  "i \<notin> set (map t_id (teams d)) \<Longrightarrow> \<not> list_ex (\<lambda>x. t_id x = i \<and> t_user_id x = u) (teams d)"
  by (auto simp: list_ex_iff)

lemma other_player_no_hit:
  assumes "keys_ok d" "p \<in> set (players d)" "p_user_id p \<noteq> u"
  shows "\<not> list_ex (\<lambda>x. p_id x = p_id p \<and> p_user_id x = u) (players d)"
proof -
  from assms(1) have "inj_on p_id (set (players d))"
    by (simp add: keys_ok_def distinct_map)
  with assms(2,3) show ?thesis
    by (auto simp: list_ex_iff dest: inj_onD)
qed

lemma absent_player_no_hit:
  "i \<notin> set (map p_id (players d)) \<Longrightarrow> \<not> list_ex (\<lambda>x. p_id x = i \<and> p_user_id x = u) (players d)"
  by (auto simp: list_ex_iff)

lemma Team_findById_no_hit:
  "\<not> list_ex (\<lambda>x. t_id x = i \<and> t_user_id x = u) (teams d) \<Longrightarrow> Team_findById i u d = None"
  by (simp add: Team_findById_def filter_no_hit first_row_def)

lemma Team_findByIdWithPlayerCount_no_hit:
  "\<not> list_ex (\<lambda>x. t_id x = i \<and> t_user_id x = u) (teams d) \<Longrightarrow>
   Team_findByIdWithPlayerCount i u d = None"
  by (simp add: Team_findByIdWithPlayerCount_def filter_no_hit first_row_def)

lemma Team_getTeamHierarchy_no_hit:
  "\<not> list_ex (\<lambda>x. t_id x = i \<and> t_user_id x = u) (teams d) \<Longrightarrow>
   Team_getTeamHierarchy coll i u d = None"
  by (simp add: Team_getTeamHierarchy_def Team_findById_no_hit)

lemma Team_delete_no_hit:
  assumes "\<not> list_ex (\<lambda>x. t_id x = i \<and> t_user_id x = u) (teams d)"
  shows "Team_delete i u d = (False, d)"
proof -
  have 1: "filter (\<lambda>x. t_id x = i \<and> t_user_id x = u) (teams d) = []"
    by (rule filter_no_hit [OF assms])
  have 2: "filter (\<lambda>t. t_id t = i \<longrightarrow> t_user_id t \<noteq> u) (teams d) = teams d"
    using assms by (auto simp: filter_id_conv list_ex_iff)
  show ?thesis
    unfolding Team_delete_def Let_def 1 by (simp add: 2)
qed

lemma Team_update_no_hit:
  "\<not> list_ex (\<lambda>x. t_id x = i \<and> t_user_id x = u) (teams d) \<Longrightarrow>
   Team_update now i n l c ds u d =
     and_then (varchar 255 n) (\<lambda>_. and_then (varchar 50 l) (\<lambda>_.
       and_then (varchar 7 c) (\<lambda>_. and_then (text_param ds) (\<lambda>_. Inr (False, d)))))"
  by (simp add: Team_update_def Let_def map_if_no_hit)

lemma inner_join_filter:
  "filter (\<lambda>r. P (fst r)) (inner_join ps ts) = inner_join (filter P ps) ts"
  by (induction ps) (auto simp: inner_join_def filter_empty_conv)

lemma left_join_filter:
  "filter (\<lambda>r. P (fst r)) (left_join ps ts) = left_join (filter P ps) ts"
  by (induction ps) (auto simp: left_join_def filter_empty_conv split: list.splits)

lemma Player_findById_no_hit:
  "\<not> list_ex (\<lambda>x. p_id x = i \<and> p_user_id x = u) (players d) \<Longrightarrow> Player_findById i u d = None"
  using inner_join_filter [of "\<lambda>x. p_id x = i \<and> p_user_id x = u" "players d" "teams d"]
  by (simp add: Player_findById_def filter_no_hit first_row_def inner_join_def)

lemma Player_update_no_hit:
  "\<not> list_ex (\<lambda>x. p_id x = i \<and> p_user_id x = u) (players d) \<Longrightarrow>
   Player_update now i n p j t u d =
     and_then (varchar 255 n) (\<lambda>_. and_then (nullable (varchar 100) p) (\<lambda>_. Inr (False, d)))"
  by (simp add: Player_update_def Let_def map_if_no_hit)

lemma Player_assignToTeam_no_hit:
  "\<not> list_ex (\<lambda>x. p_id x = i \<and> p_user_id x = u) (players d) \<Longrightarrow>
   Player_assignToTeam now i t u d = Inr (False, d)"
  by (simp add: Player_assignToTeam_def Let_def map_if_no_hit)

lemma Player_unassignFromTeam_no_hit:
  "\<not> list_ex (\<lambda>x. p_id x = i \<and> p_user_id x = u) (players d) \<Longrightarrow>
   Player_unassignFromTeam now i u d = (False, d)"
  by (simp add: Player_unassignFromTeam_def Let_def map_if_no_hit)

lemma Player_delete_no_hit:
  "\<not> list_ex (\<lambda>x. p_id x = i \<and> p_user_id x = u) (players d) \<Longrightarrow>
   Player_delete i u d = (False, d)"
  by (auto simp: Player_delete_def Let_def filter_id_conv list_ex_iff)

lemma no_row_written_and_then:
  "(\<And>x. no_row_written (f x) d) \<Longrightarrow> no_row_written (and_then r f) d"
  by (cases r) (simp_all add: and_then_def no_row_written_def)

lemma Team_update_refused:
  "\<not> list_ex (\<lambda>x. t_id x = i \<and> t_user_id x = u) (teams d) \<Longrightarrow>
   no_row_written (Team_update now i n l c ds u d) d"
  unfolding Team_update_no_hit
  by (intro no_row_written_and_then) (simp add: no_row_written_def)

lemma Player_update_refused:
  "\<not> list_ex (\<lambda>x. p_id x = i \<and> p_user_id x = u) (players d) \<Longrightarrow>
   no_row_written (Player_update now i n p j t u d) d"
  unfolding Player_update_no_hit
  by (intro no_row_written_and_then) (simp add: no_row_written_def)

text \<open>The handlers on an id that selects no row of the caller.\<close>

lemma updateTeam_no_hit:
  assumes "\<not> list_ex (\<lambda>x. t_id x = i \<and> t_user_id x = u) (teams d)"
  shows "\<not> success (fst (updateTeam now u i body d)) \<and> snd (updateTeam now u i body d) = d \<and>
         (\<not> list_ex (\<lambda>x. t_id x = j \<and> t_user_id x = u) (teams d) \<longrightarrow>
            updateTeam now u i body d = updateTeam now u j body d)"
  by (simp add: updateTeam_def Let_def Team_update_no_hit [OF assms] Team_update_no_hit
      and_then_def failure_def split: sum.splits)

lemma updatePlayer_no_hit:
  assumes "\<not> list_ex (\<lambda>x. p_id x = i \<and> p_user_id x = u) (players d)"
  shows "\<not> success (fst (updatePlayer now u i body d)) \<and>
         snd (updatePlayer now u i body d) = d \<and>
         (\<not> list_ex (\<lambda>x. p_id x = k \<and> p_user_id x = u) (players d) \<longrightarrow>
            updatePlayer now u i body d = updatePlayer now u k body d)"
  by (simp add: updatePlayer_def Let_def Player_update_no_hit [OF assms] Player_update_no_hit
      and_then_def failure_def split: sum.splits)

lemma assignPlayerToTeam_no_hit:
  assumes "\<not> list_ex (\<lambda>x. p_id x = i \<and> p_user_id x = u) (players d)"
  shows "\<not> success (fst (assignPlayerToTeam now u i tid d)) \<and>
         snd (assignPlayerToTeam now u i tid d) = d \<and>
         (\<not> list_ex (\<lambda>x. p_id x = k \<and> p_user_id x = u) (players d) \<longrightarrow>
            assignPlayerToTeam now u i tid d = assignPlayerToTeam now u k tid d)"
  by (simp add: assignPlayerToTeam_def Player_assignToTeam_no_hit [OF assms]
      Player_assignToTeam_no_hit failure_def split: option.splits)

lemma count_players_own_teams: "count_players t (own_teams u d) = count_players t d"
  by (simp add: count_players_def own_teams_def)

lemma team_reads_own:
  "Team_findAllByUserId coll u (own_teams u d) = Team_findAllByUserId coll u d"
  "Team_findAllWithPlayerCounts coll u (own_teams u d) = Team_findAllWithPlayerCounts coll u d"
  "Team_countByUserId u (own_teams u d) = Team_countByUserId u d"
  by (simp_all add: Team_findAllByUserId_def Team_findAllWithPlayerCounts_def
      Team_countByUserId_def count_players_own_teams, simp_all add: own_teams_def)

lemma left_join_own:
  "filter (\<lambda>r. p_user_id (fst r) = u \<and> Q r) (left_join (filter (\<lambda>p. p_user_id p = u) ps) ts) =
   filter (\<lambda>r. p_user_id (fst r) = u \<and> Q r) (left_join ps ts)"
proof -
  have "filter (\<lambda>r. p_user_id (fst r) = u \<and> Q r) (left_join ps ts) =
        filter Q (filter (\<lambda>r. p_user_id (fst r) = u) (left_join ps ts))"
    by (simp add: conj_commute)
  also have "\<dots> = filter Q (left_join (filter (\<lambda>p. p_user_id p = u) ps) ts)"
    using left_join_filter [of "\<lambda>p. p_user_id p = u" ps ts] by simp
  also have "\<dots> = filter Q (filter (\<lambda>r. p_user_id (fst r) = u)
                        (left_join (filter (\<lambda>p. p_user_id p = u) ps) ts))"
    using left_join_filter [of "\<lambda>p. p_user_id p = u" "filter (\<lambda>p. p_user_id p = u) ps" ts]
    by simp
  finally show ?thesis by (simp add: conj_commute)
qed

lemma inner_join_own:
  "filter (\<lambda>r. p_id (fst r) = i \<and> p_user_id (fst r) = u)
     (inner_join (filter (\<lambda>p. p_user_id p = u) ps) ts) =
   filter (\<lambda>r. p_id (fst r) = i \<and> p_user_id (fst r) = u) (inner_join ps ts)"
proof -
  have "filter (\<lambda>p. p_id p = i \<and> p_user_id p = u) (filter (\<lambda>p. p_user_id p = u) ps) =
        filter (\<lambda>p. p_id p = i \<and> p_user_id p = u) ps"
    by (simp add: conj_commute cong: conj_cong)
  then show ?thesis
    using inner_join_filter [of "\<lambda>p. p_id p = i \<and> p_user_id p = u" ps ts]
      inner_join_filter [of "\<lambda>p. p_id p = i \<and> p_user_id p = u"
        "filter (\<lambda>p. p_user_id p = u) ps" ts]
    by simp
qed

lemma player_reads_own:
  "Player_findAllByUserId coll u (own_players u d) = Player_findAllByUserId coll u d"
  "Player_findById i u (own_players u d) = Player_findById i u d"
  "Player_findGlobalPlayers coll u (own_players u d) = Player_findGlobalPlayers coll u d"
  "Player_findAllByTeamId coll i u (own_players u d) = Player_findAllByTeamId coll i u d"
  "Player_countByUserId u (own_players u d) = Player_countByUserId u d"
  "Player_countByTeamId i u (own_players u d) = Player_countByTeamId i u d"
  "Player_search coll lc q u (own_players u d) = Player_search coll lc q u d"
proof -
  show "Player_findAllByUserId coll u (own_players u d) = Player_findAllByUserId coll u d"
    using left_join_own [of u "\<lambda>r. True" "players d" "teams d"]
    by (simp add: Player_findAllByUserId_def own_players_def)
  show "Player_findById i u (own_players u d) = Player_findById i u d"
    by (simp add: Player_findById_def own_players_def inner_join_own)
  show "Player_search coll lc q u (own_players u d) = Player_search coll lc q u d"
    unfolding Player_search_def own_players_def
    by (simp add: left_join_own)
  show "Player_findGlobalPlayers coll u (own_players u d) = Player_findGlobalPlayers coll u d"
    "Player_findAllByTeamId coll i u (own_players u d) = Player_findAllByTeamId coll i u d"
    "Player_countByUserId u (own_players u d) = Player_countByUserId u d"
    "Player_countByTeamId i u (own_players u d) = Player_countByTeamId i u d"
    by (simp_all add: Player_findGlobalPlayers_def Player_findAllByTeamId_def
        Player_countByUserId_def Player_countByTeamId_def own_players_def conj_commute
        cong: conj_cong)
qed

text \<open>Reads of one table see the rows of the caller only.\<close>

lemma own_rows_simps:
  "teams (own_rows u d) = filter (\<lambda>t. t_user_id t = u) (teams d)"
  "players (own_rows u d) = filter (\<lambda>p. p_user_id p = u) (players d)"
  by (simp_all add: own_rows_def own_teams_def own_players_def)

lemma filter_own_twice:
  "filter (\<lambda>x. g x = u) (filter (\<lambda>x. g x = u) xs) = filter (\<lambda>x. g x = u) xs"
  "filter (\<lambda>x. P x \<and> g x = u) (filter (\<lambda>x. g x = u) xs) = filter (\<lambda>x. P x \<and> g x = u) xs"
  "filter (\<lambda>x. g x = u \<and> P x) (filter (\<lambda>x. g x = u) xs) = filter (\<lambda>x. g x = u \<and> P x) xs"
  by (simp_all add: conj_commute cong: conj_cong)

lemma plain_reads_own:
  "Team_findAllByUserId coll u (own_rows u d) = Team_findAllByUserId coll u d"
  "Team_countByUserId u (own_rows u d) = Team_countByUserId u d"
  "Team_findById i u (own_rows u d) = Team_findById i u d"
  "Team_getTeamHierarchy coll i u (own_rows u d) = Team_getTeamHierarchy coll i u d"
  "Player_findGlobalPlayers coll u (own_rows u d) = Player_findGlobalPlayers coll u d"
  "Player_findAllByTeamId coll i u (own_rows u d) = Player_findAllByTeamId coll i u d"
  "Player_countByUserId u (own_rows u d) = Player_countByUserId u d"
  "Player_countByTeamId i u (own_rows u d) = Player_countByTeamId i u d"
proof -
  show f: "Team_findById i u (own_rows u d) = Team_findById i u d"
    by (simp add: Team_findById_def own_rows_simps filter_own_twice del: filter_filter)
  have "filter (\<lambda>p. team_id p = Some i \<and> p_user_id p = u) (players (own_rows u d)) =
        filter (\<lambda>p. team_id p = Some i \<and> p_user_id p = u) (players d)"
    by (simp add: own_rows_simps filter_own_twice del: filter_filter)
  then show "Team_getTeamHierarchy coll i u (own_rows u d) = Team_getTeamHierarchy coll i u d"
    by (simp only: Team_getTeamHierarchy_def f)
  show "Team_findAllByUserId coll u (own_rows u d) = Team_findAllByUserId coll u d"
    "Team_countByUserId u (own_rows u d) = Team_countByUserId u d"
    "Player_findGlobalPlayers coll u (own_rows u d) = Player_findGlobalPlayers coll u d"
    "Player_findAllByTeamId coll i u (own_rows u d) = Player_findAllByTeamId coll i u d"
    "Player_countByUserId u (own_rows u d) = Player_countByUserId u d"
    "Player_countByTeamId i u (own_rows u d) = Player_countByTeamId i u d"
    by (simp_all add: Team_findAllByUserId_def Team_countByUserId_def
        Player_findGlobalPlayers_def Player_findAllByTeamId_def Player_countByUserId_def
        Player_countByTeamId_def own_rows_simps filter_own_twice del: filter_filter)
qed

text \<open>Reads that join the two tables see the rows of the caller only if no player
  references a team of another user.\<close>

lemma same_owner_team:
  "same_owner d \<Longrightarrow> p \<in> set (players d) \<Longrightarrow> t \<in> set (teams d) \<Longrightarrow> on_team p t \<Longrightarrow>
   t_user_id t = p_user_id p"
  by (simp add: same_owner_def list_all_iff)

lemma own_team_of_player:
  assumes "same_owner d" and "p \<in> set (players d)" and "p_user_id p = u"
  shows "filter (on_team p) (filter (\<lambda>t. t_user_id t = u) (teams d)) =
         filter (on_team p) (teams d)"
proof -
  have "(t_user_id t = u \<and> on_team p t) = on_team p t" if "t \<in> set (teams d)" for t
    using same_owner_team [OF assms(1,2) that] assms(3) by auto
  then show ?thesis
    by (simp add: conj_commute cong: filter_cong)
qed

lemma own_players_of_team:
  assumes "same_owner d" and "t \<in> set (teams d)" and "t_user_id t = u"
  shows "count_players t (own_rows u d) = count_players t d"
proof -
  have "(p_user_id p = u \<and> on_team p t) = on_team p t" if "p \<in> set (players d)" for p
    using same_owner_team [OF assms(1) that assms(2)] assms(3) by auto
  then show ?thesis
    by (simp add: count_players_def own_rows_simps conj_commute cong: filter_cong)
qed

lemma joins_own:
  assumes "same_owner d" and "set ps \<subseteq> set (players d)" and "\<forall>p\<in>set ps. p_user_id p = u"
  shows "left_join ps (filter (\<lambda>t. t_user_id t = u) (teams d)) = left_join ps (teams d)"
    and "inner_join ps (filter (\<lambda>t. t_user_id t = u) (teams d)) = inner_join ps (teams d)"
proof -
  have "filter (on_team p) (filter (\<lambda>t. t_user_id t = u) (teams d)) =
        filter (on_team p) (teams d)" if "p \<in> set ps" for p
    using own_team_of_player [OF assms(1), of p u] assms(2,3) that by auto
  then show "left_join ps (filter (\<lambda>t. t_user_id t = u) (teams d)) = left_join ps (teams d)"
    and "inner_join ps (filter (\<lambda>t. t_user_id t = u) (teams d)) = inner_join ps (teams d)"
    by (simp_all add: left_join_def inner_join_def cong: map_cong)
qed

lemma joined_reads_own:
  assumes "same_owner d"
  shows "Team_findAllWithPlayerCounts coll u (own_rows u d) = Team_findAllWithPlayerCounts coll u d"
    and "Team_findByIdWithPlayerCount i u (own_rows u d) = Team_findByIdWithPlayerCount i u d"
    and "Player_findAllByUserId coll u (own_rows u d) = Player_findAllByUserId coll u d"
    and "Player_findById i u (own_rows u d) = Player_findById i u d"
    and "Player_search coll lc q u (own_rows u d) = Player_search coll lc q u d"
proof -
  have c: "count_players t (own_rows u d) = count_players t d"
    if "t \<in> set (filter (\<lambda>t. P t \<and> t_user_id t = u) (teams d))" for t P
    using own_players_of_team [OF assms, of t u] that by simp
  show "Team_findAllWithPlayerCounts coll u (own_rows u d) = Team_findAllWithPlayerCounts coll u d"
    using c [of _ "\<lambda>t. True"]
    by (simp add: Team_findAllWithPlayerCounts_def own_rows_simps filter_own_twice
        del: filter_filter cong: map_cong)
  have m: "map (\<lambda>t. (select_team t, count_players t (own_rows u d)))
          (filter (\<lambda>t. t_id t = i \<and> t_user_id t = u) (teams d)) =
        map (\<lambda>t. (select_team t, count_players t d))
          (filter (\<lambda>t. t_id t = i \<and> t_user_id t = u) (teams d))"
    by (rule map_cong [OF refl]) (simp add: c [of _ "\<lambda>t. t_id t = i"])
  have t: "filter (\<lambda>t. t_id t = i \<and> t_user_id t = u) (teams (own_rows u d)) =
           filter (\<lambda>t. t_id t = i \<and> t_user_id t = u) (teams d)"
    by (simp add: own_rows_simps filter_own_twice del: filter_filter)
  show "Team_findByIdWithPlayerCount i u (own_rows u d) =
             Team_findByIdWithPlayerCount i u d"
    by (simp only: Team_findByIdWithPlayerCount_def t m)
  have j: "left_join (filter (\<lambda>p. p_user_id p = u) (players d))
             (filter (\<lambda>t. t_user_id t = u) (teams d)) =
           left_join (filter (\<lambda>p. p_user_id p = u) (players d)) (teams d)"
    "inner_join (filter (\<lambda>p. p_user_id p = u) (players d))
             (filter (\<lambda>t. t_user_id t = u) (teams d)) =
           inner_join (filter (\<lambda>p. p_user_id p = u) (players d)) (teams d)"
    by (rule joins_own [OF assms]; simp)+
  have o: "own_rows u d = own_teams u (own_players u d)" by (simp add: own_rows_def)
  have "Player_findAllByUserId coll u (own_rows u d) =
        Player_findAllByUserId coll u (own_players u d)"
    by (simp add: Player_findAllByUserId_def own_rows_simps own_players_def j)
  then show "Player_findAllByUserId coll u (own_rows u d) = Player_findAllByUserId coll u d"
    by (simp add: player_reads_own)
  have "Player_findById i u (own_rows u d) = Player_findById i u (own_players u d)"
    by (simp add: Player_findById_def own_rows_simps own_players_def j)
  then show "Player_findById i u (own_rows u d) = Player_findById i u d"
    by (simp add: player_reads_own)
  have "Player_search coll lc q u (own_rows u d) = Player_search coll lc q u (own_players u d)"
    by (simp add: Player_search_def own_rows_simps own_players_def j)
  then show "Player_search coll lc q u (own_rows u d) = Player_search coll lc q u d"
    by (simp add: player_reads_own)
qed

text \<open>A write changes no row of another user, if no player references a team of
  another user.\<close>

lemma filter_map_others:
  assumes "\<And>x. x \<in> set xs \<Longrightarrow> g x \<noteq> u \<Longrightarrow> f x = x" and "\<And>x. g (f x) = g x"
  shows "filter (\<lambda>x. g x \<noteq> u) (map f xs) = filter (\<lambda>x. g x \<noteq> u) xs"
  using assms(1) by (induction xs) (auto simp: assms(2))

lemma filter_filter_others:
  "(\<And>x. x \<in> set xs \<Longrightarrow> g x \<noteq> u \<Longrightarrow> P x) \<Longrightarrow>
   filter (\<lambda>x. g x \<noteq> u) (filter P xs) = filter (\<lambda>x. g x \<noteq> u) xs"
  by (induction xs) auto

lemma others_players_map:
  assumes "\<And>q. q \<in> set (players d) \<Longrightarrow> p_user_id q \<noteq> u \<Longrightarrow> f q = q"
    and "\<And>q. p_user_id (f q) = p_user_id q"
  shows "others_rows u (d\<lparr>players := map f (players d)\<rparr>) = others_rows u d"
  using filter_map_others [of "players d" p_user_id u f] assms
  by (simp add: others_rows_def)

lemma others_PlayerCreate:
  "others_rows u (perform now (PlayerCreate n p j t u) d) = others_rows u d"
proof (cases "Player_create now n p j t u d")
  case (Inl e)
  then show ?thesis by (simp add: after_def)
next
  case (Inr x)
  obtain row d' where x: "x = (row, d')" by (cases x)
  from Player_create_Inr [OF Inr [unfolded x]]
  have "p_user_id row = u"
    and "d' = d\<lparr>players := players d @ [row], next_player_id := next_player_id d + 1\<rparr>"
    by auto
  then show ?thesis
    by (simp add: Inr x after_def others_rows_def)
qed

lemma others_PlayerUpdate:
  "others_rows u (perform now (PlayerUpdate i n p j t u) d) = others_rows u d"
proof (cases "Player_update now i n p j t u d")
  case (Inl e)
  then show ?thesis by (simp add: after_def)
next
  case (Inr x)
  obtain found d' where x: "x = (found, d')" by (cases x)
  from Player_update_Inr [OF Inr [unfolded x]] obtain n' pos' where
    d': "d' = d\<lparr>players :=
                  map (\<lambda>p. if p_id p = i \<and> p_user_id p = u
                           then p\<lparr>player_name := n', position := pos', jersey_number := j,
                                  team_id := or_null t, p_updated_at := now\<rparr>
                           else p) (players d)\<rparr>"
    by auto
  define f :: "player \<Rightarrow> player" where
    "f = (\<lambda>p. if p_id p = i \<and> p_user_id p = u
               then p\<lparr>player_name := n', position := pos', jersey_number := j,
                      team_id := or_null t, p_updated_at := now\<rparr>
               else p)"
  have d'': "perform now (PlayerUpdate i n p j t u) d = d\<lparr>players := map f (players d)\<rparr>"
    by (simp add: Inr x after_def d' f_def)
  show ?thesis
    unfolding d'' by (rule others_players_map) (simp_all add: f_def)
qed

lemma others_PlayerAssign:
  "others_rows u (perform now (PlayerAssign i t u) d) = others_rows u d"
proof (cases "Player_assignToTeam now i t u d")
  case (Inl e)
  then show ?thesis by (simp add: after_def)
next
  case (Inr x)
  define f :: "player \<Rightarrow> player" where
    "f = (\<lambda>p. if p_id p = i \<and> p_user_id p = u
               then p\<lparr>team_id := Some t, p_updated_at := now\<rparr> else p)"
  obtain ok d' where x: "x = (ok, d')" by (cases x)
  from Inr have "d' = d\<lparr>players := map f (players d)\<rparr>"
    unfolding x by (auto simp: Player_assignToTeam_def Let_def f_def split: if_splits)
  then have d'': "perform now (PlayerAssign i t u) d = d\<lparr>players := map f (players d)\<rparr>"
    by (simp add: Inr x after_def)
  show ?thesis
    unfolding d'' by (rule others_players_map) (simp_all add: f_def)
qed

lemma others_PlayerUnassign:
  "others_rows u (perform now (PlayerUnassign i u) d) = others_rows u d"
proof -
  define f :: "player \<Rightarrow> player" where
    "f = (\<lambda>p. if p_id p = i \<and> p_user_id p = u
               then p\<lparr>team_id := None, p_updated_at := now\<rparr> else p)"
  have d'': "perform now (PlayerUnassign i u) d = d\<lparr>players := map f (players d)\<rparr>"
    by (simp add: Player_unassignFromTeam_def f_def Let_def)
  show ?thesis
    unfolding d'' by (rule others_players_map) (simp_all add: f_def)
qed

lemma others_PlayerDelete:
  "others_rows u (perform now (PlayerDelete i u) d) = others_rows u d"
  using filter_filter_others [of "players d" p_user_id u "\<lambda>p. \<not> (p_id p = i \<and> p_user_id p = u)"]
  by (simp add: Player_delete_def Let_def others_rows_def)

lemma others_TeamCreate:
  "others_rows u (perform now (TeamCreate n l c ds u) d) = others_rows u d"
proof (cases "Team_create now n l c ds u d")
  case (Inl e)
  then show ?thesis by (simp add: after_def)
next
  case (Inr x)
  obtain row d' where x: "x = (row, d')" by (cases x)
  from Team_create_Inr [OF Inr [unfolded x]]
  have "t_user_id row = u"
    and "d' = d\<lparr>teams := teams d @ [row], next_team_id := next_team_id d + 1\<rparr>"
    by auto
  then show ?thesis
    by (simp add: Inr x after_def others_rows_def)
qed

lemma others_TeamUpdate:
  "others_rows u (perform now (TeamUpdate i n l c ds u) d) = others_rows u d"
proof (cases "Team_update now i n l c ds u d")
  case (Inl e)
  then show ?thesis by (simp add: after_def)
next
  case (Inr x)
  obtain ok d' where x: "x = (ok, d')" by (cases x)
  from Team_update_Inr [OF Inr [unfolded x]] obtain n' l' c' ds' where
    d': "d' = d\<lparr>teams := map (\<lambda>t. if t_id t = i \<and> t_user_id t = u
                                      then t\<lparr>team_name := n', team_logo := Some l',
                                             team_color := Some c', description := Some ds',
                                             t_updated_at := now\<rparr>
                                      else t) (teams d)\<rparr>"
    by auto
  define f :: "team \<Rightarrow> team" where
    "f = (\<lambda>t. if t_id t = i \<and> t_user_id t = u
                                      then t\<lparr>team_name := n', team_logo := Some l',
                                             team_color := Some c', description := Some ds',
                                             t_updated_at := now\<rparr>
                                      else t)"
  have d'': "perform now (TeamUpdate i n l c ds u) d = d\<lparr>teams := map f (teams d)\<rparr>"
    by (simp add: Inr x after_def d' f_def)
  have "filter (\<lambda>t. t_user_id t \<noteq> u) (map f (teams d)) = filter (\<lambda>t. t_user_id t \<noteq> u) (teams d)"
    by (rule filter_map_others) (simp_all add: f_def)
  then show ?thesis
    unfolding d'' by (simp add: others_rows_def)
qed

lemma others_TeamDelete:
  assumes "same_owner d"
  shows "others_rows u (perform now (TeamDelete i u) d) = others_rows u d"
proof -
  define gone where "gone = filter (\<lambda>t. t_id t = i \<and> t_user_id t = u) (teams d)"
  define kept where "kept = filter (\<lambda>t. \<not> (t_id t = i \<and> t_user_id t = u)) (teams d)"
  define f :: "player \<Rightarrow> player" where
    "f = (\<lambda>p. if list_ex (on_team p) gone then p\<lparr>team_id := None\<rparr> else p)"
  have d'': "perform now (TeamDelete i u) d = d\<lparr>teams := kept, players := map f (players d)\<rparr>"
    by (simp add: Team_delete_def Let_def gone_def kept_def f_def)
  have t: "filter (\<lambda>t. t_user_id t \<noteq> u) kept = filter (\<lambda>t. t_user_id t \<noteq> u) (teams d)"
    unfolding kept_def by (rule filter_filter_others) simp
  have "f q = q" if q: "q \<in> set (players d)" "p_user_id q \<noteq> u" for q
  proof -
    have "\<not> list_ex (on_team q) gone"
    proof
      assume "list_ex (on_team q) gone"
      then obtain t where "t \<in> set (teams d)" "t_user_id t = u" "on_team q t"
        by (auto simp: gone_def list_ex_iff)
      with same_owner_team [OF assms q(1)] q(2) show False by auto
    qed
    then show ?thesis by (simp add: f_def)
  qed
  then have p: "filter (\<lambda>p. p_user_id p \<noteq> u) (map f (players d)) =
                filter (\<lambda>p. p_user_id p \<noteq> u) (players d)"
    by (intro filter_map_others) (simp_all add: f_def)
  show ?thesis
    unfolding d'' by (simp add: others_rows_def t p)
qed

lemma writes_leave_others:
  assumes "same_owner d"
  shows "others_rows (caller w) (perform now w d) = others_rows (caller w) d"
proof (cases w)
  case (PlayerCreate n p j t u)
  then show ?thesis using others_PlayerCreate [of u now n p j t d] by simp
next
  case (PlayerUpdate i n p j t u)
  then show ?thesis using others_PlayerUpdate [of u now i n p j t d] by simp
next
  case (PlayerAssign i t u)
  then show ?thesis using others_PlayerAssign [of u now i t d] by simp
next
  case (PlayerUnassign i u)
  then show ?thesis using others_PlayerUnassign [of u now i d] by simp
next
  case (PlayerDelete i u)
  then show ?thesis using others_PlayerDelete [of u now i d] by simp
next
  case (TeamCreate n l c ds u)
  then show ?thesis using others_TeamCreate [of u now n l c ds d] by simp
next
  case (TeamUpdate i n l c ds u)
  then show ?thesis using others_TeamUpdate [of u now i n l c ds d] by simp
next
  case (TeamDelete i u)
  then show ?thesis using others_TeamDelete [OF assms, of u now i] by simp
qed

text \<open>
  C3, as amended. Let the primary keys hold and let \<open>B\<close> be a user. For every team \<open>t\<close>
  of another user and every id \<open>j\<close> of no team, each operation of \<open>B\<close> that selects a
  team by id returns for \<open>t\<close> what it returns for \<open>j\<close>: the lookups return null, the
  update and the delete find no row and leave the store as it was, and the handler of
  the update gives the same response, which is no success. The same holds of every
  player \<open>p\<close> of another user and every id \<open>k\<close> of no player, for the lookup, the
  update, the assignment to a team, the removal from a team and the delete, and for the
  handlers of the lookup, the update and the assignment. Every list, count and lookup of
  \<open>B\<close> that reads one table returns what it returns on the rows of \<open>B\<close> alone. A read of
  \<open>B\<close> that joins players and teams returns what it returns on the store with the rows
  of \<open>B\<close> alone in the table it selects from; it returns what it returns on the rows of
  \<open>B\<close> alone in both tables if no player references a team of another user, and then a
  write made by a user changes no row of another user.
\<close>

theorem cross_owner_is_not_found:
  assumes keys: "keys_ok d"
  shows
    "(\<forall>t\<in>set (teams d). \<forall>j. t_user_id t \<noteq> B \<and> int32 j \<and> j \<notin> set (map t_id (teams d)) \<longrightarrow>
        Team_findById (t_id t) B d = None \<and> Team_findById j B d = None \<and>
        Team_findByIdWithPlayerCount (t_id t) B d = None \<and>
        Team_findByIdWithPlayerCount j B d = None \<and>
        Team_getTeamHierarchy coll (t_id t) B d = None \<and>
        Team_getTeamHierarchy coll j B d = None \<and>
        Team_update now (t_id t) n l c ds B d = Team_update now j n l c ds B d \<and>
        no_row_written (Team_update now (t_id t) n l c ds B d) d \<and>
        Team_delete (t_id t) B d = (False, d) \<and> Team_delete j B d = (False, d) \<and>
        updateTeam now B (t_id t) tb d = updateTeam now B j tb d \<and>
        \<not> success (fst (updateTeam now B (t_id t) tb d)) \<and>
        snd (updateTeam now B (t_id t) tb d) = d) \<and>
     (\<forall>p\<in>set (players d). \<forall>k. p_user_id p \<noteq> B \<and> int32 k \<and> k \<notin> set (map p_id (players d)) \<longrightarrow>
        Player_findById (p_id p) B d = None \<and> Player_findById k B d = None \<and>
        getPlayerById B (p_id p) d = failure 404 ''Player not found.'' \<and>
        getPlayerById B k d = failure 404 ''Player not found.'' \<and>
        Player_update now (p_id p) n ps jn tm B d = Player_update now k n ps jn tm B d \<and>
        no_row_written (Player_update now (p_id p) n ps jn tm B d) d \<and>
        Player_assignToTeam now (p_id p) ti B d = Player_assignToTeam now k ti B d \<and>
        no_row_written (Player_assignToTeam now (p_id p) ti B d) d \<and>
        Player_unassignFromTeam now (p_id p) B d = (False, d) \<and>
        Player_unassignFromTeam now k B d = (False, d) \<and>
        Player_delete (p_id p) B d = (False, d) \<and> Player_delete k B d = (False, d) \<and>
        updatePlayer now B (p_id p) pb d = updatePlayer now B k pb d \<and>
        \<not> success (fst (updatePlayer now B (p_id p) pb d)) \<and>
        snd (updatePlayer now B (p_id p) pb d) = d \<and>
        assignPlayerToTeam now B (p_id p) tid d = assignPlayerToTeam now B k tid d \<and>
        \<not> success (fst (assignPlayerToTeam now B (p_id p) tid d)) \<and>
        snd (assignPlayerToTeam now B (p_id p) tid d) = d) \<and>
     Team_findAllByUserId coll B d = Team_findAllByUserId coll B (own_rows B d) \<and>
     Team_countByUserId B d = Team_countByUserId B (own_rows B d) \<and>
     Team_findById i B d = Team_findById i B (own_rows B d) \<and>
     Team_getTeamHierarchy coll i B d = Team_getTeamHierarchy coll i B (own_rows B d) \<and>
     Player_findGlobalPlayers coll B d = Player_findGlobalPlayers coll B (own_rows B d) \<and>
     Player_findAllByTeamId coll i B d = Player_findAllByTeamId coll i B (own_rows B d) \<and>
     Player_countByUserId B d = Player_countByUserId B (own_rows B d) \<and>
     Player_countByTeamId i B d = Player_countByTeamId i B (own_rows B d) \<and>
     Team_findAllWithPlayerCounts coll B d = Team_findAllWithPlayerCounts coll B (own_teams B d) \<and>
     Player_findAllByUserId coll B d = Player_findAllByUserId coll B (own_players B d) \<and>
     Player_findById i B d = Player_findById i B (own_players B d) \<and>
     Player_search coll lc q B d = Player_search coll lc q B (own_players B d) \<and>
     (same_owner d \<longrightarrow>
        Team_findAllWithPlayerCounts coll B d =
          Team_findAllWithPlayerCounts coll B (own_rows B d) \<and>
        Team_findByIdWithPlayerCount i B d = Team_findByIdWithPlayerCount i B (own_rows B d) \<and>
        Player_findAllByUserId coll B d = Player_findAllByUserId coll B (own_rows B d) \<and>
        Player_findById i B d = Player_findById i B (own_rows B d) \<and>
        Player_search coll lc q B d = Player_search coll lc q B (own_rows B d) \<and>
        others_rows (caller w) (perform now w d) = others_rows (caller w) d)"
proof -
  have 1: "\<forall>t\<in>set (teams d). \<forall>j. t_user_id t \<noteq> B \<and> int32 j \<and> j \<notin> set (map t_id (teams d)) \<longrightarrow>
        Team_findById (t_id t) B d = None \<and> Team_findById j B d = None \<and>
        Team_findByIdWithPlayerCount (t_id t) B d = None \<and>
        Team_findByIdWithPlayerCount j B d = None \<and>
        Team_getTeamHierarchy coll (t_id t) B d = None \<and>
        Team_getTeamHierarchy coll j B d = None \<and>
        Team_update now (t_id t) n l c ds B d = Team_update now j n l c ds B d \<and>
        no_row_written (Team_update now (t_id t) n l c ds B d) d \<and>
        Team_delete (t_id t) B d = (False, d) \<and> Team_delete j B d = (False, d) \<and>
        updateTeam now B (t_id t) tb d = updateTeam now B j tb d \<and>
        \<not> success (fst (updateTeam now B (t_id t) tb d)) \<and>
        snd (updateTeam now B (t_id t) tb d) = d"
  proof (intro ballI allI impI)
    fix t j
    assume t: "t \<in> set (teams d)"
      and a: "t_user_id t \<noteq> B \<and> int32 j \<and> j \<notin> set (map t_id (teams d))"
    have tx: "\<not> list_ex (\<lambda>x. t_id x = t_id t \<and> t_user_id x = B) (teams d)"
      using other_team_no_hit [OF keys t] a by simp
    have tj: "\<not> list_ex (\<lambda>x. t_id x = j \<and> t_user_id x = B) (teams d)"
      using absent_team_no_hit [of j d B] a by simp
    note reads =
      Team_findById_no_hit [OF tx] Team_findById_no_hit [OF tj]
      Team_findByIdWithPlayerCount_no_hit [OF tx] Team_findByIdWithPlayerCount_no_hit [OF tj]
      Team_getTeamHierarchy_no_hit [OF tx] Team_getTeamHierarchy_no_hit [OF tj]
    note writes =
      Team_update_no_hit [OF tx] Team_update_no_hit [OF tj]
      Team_delete_no_hit [OF tx] Team_delete_no_hit [OF tj]
    have m: "Team_findById (t_id t) B d = None \<and> Team_findById j B d = None \<and>
        Team_findByIdWithPlayerCount (t_id t) B d = None \<and>
        Team_findByIdWithPlayerCount j B d = None \<and>
        Team_getTeamHierarchy coll (t_id t) B d = None \<and>
        Team_getTeamHierarchy coll j B d = None \<and>
        Team_update now (t_id t) n l c ds B d = Team_update now j n l c ds B d \<and>
        no_row_written (Team_update now (t_id t) n l c ds B d) d \<and>
        Team_delete (t_id t) B d = (False, d) \<and> Team_delete j B d = (False, d)"
      using Team_update_refused [OF tx, of now n l c ds]
      by (simp add: reads writes)
    from updateTeam_no_hit [OF tx, of now tb j] tj
    have h: "updateTeam now B (t_id t) tb d = updateTeam now B j tb d \<and>
        \<not> success (fst (updateTeam now B (t_id t) tb d)) \<and>
        snd (updateTeam now B (t_id t) tb d) = d"
      by blast
    from m h
    show "Team_findById (t_id t) B d = None \<and> Team_findById j B d = None \<and>
        Team_findByIdWithPlayerCount (t_id t) B d = None \<and>
        Team_findByIdWithPlayerCount j B d = None \<and>
        Team_getTeamHierarchy coll (t_id t) B d = None \<and>
        Team_getTeamHierarchy coll j B d = None \<and>
        Team_update now (t_id t) n l c ds B d = Team_update now j n l c ds B d \<and>
        no_row_written (Team_update now (t_id t) n l c ds B d) d \<and>
        Team_delete (t_id t) B d = (False, d) \<and> Team_delete j B d = (False, d) \<and>
        updateTeam now B (t_id t) tb d = updateTeam now B j tb d \<and>
        \<not> success (fst (updateTeam now B (t_id t) tb d)) \<and>
        snd (updateTeam now B (t_id t) tb d) = d"
      by blast
  qed
  have 2: "\<forall>p\<in>set (players d). \<forall>k. p_user_id p \<noteq> B \<and> int32 k \<and> k \<notin> set (map p_id (players d)) \<longrightarrow>
        Player_findById (p_id p) B d = None \<and> Player_findById k B d = None \<and>
        getPlayerById B (p_id p) d = failure 404 ''Player not found.'' \<and>
        getPlayerById B k d = failure 404 ''Player not found.'' \<and>
        Player_update now (p_id p) n ps jn tm B d = Player_update now k n ps jn tm B d \<and>
        no_row_written (Player_update now (p_id p) n ps jn tm B d) d \<and>
        Player_assignToTeam now (p_id p) ti B d = Player_assignToTeam now k ti B d \<and>
        no_row_written (Player_assignToTeam now (p_id p) ti B d) d \<and>
        Player_unassignFromTeam now (p_id p) B d = (False, d) \<and>
        Player_unassignFromTeam now k B d = (False, d) \<and>
        Player_delete (p_id p) B d = (False, d) \<and> Player_delete k B d = (False, d) \<and>
        updatePlayer now B (p_id p) pb d = updatePlayer now B k pb d \<and>
        \<not> success (fst (updatePlayer now B (p_id p) pb d)) \<and>
        snd (updatePlayer now B (p_id p) pb d) = d \<and>
        assignPlayerToTeam now B (p_id p) tid d = assignPlayerToTeam now B k tid d \<and>
        \<not> success (fst (assignPlayerToTeam now B (p_id p) tid d)) \<and>
        snd (assignPlayerToTeam now B (p_id p) tid d) = d"
  proof (intro ballI allI impI)
    fix p k
    assume p: "p \<in> set (players d)"
      and a: "p_user_id p \<noteq> B \<and> int32 k \<and> k \<notin> set (map p_id (players d))"
    have px: "\<not> list_ex (\<lambda>x. p_id x = p_id p \<and> p_user_id x = B) (players d)"
      using other_player_no_hit [OF keys p] a by simp
    have pk: "\<not> list_ex (\<lambda>x. p_id x = k \<and> p_user_id x = B) (players d)"
      using absent_player_no_hit [of k d B] a by simp
    note reads = Player_findById_no_hit [OF px] Player_findById_no_hit [OF pk]
    note writes =
      Player_update_no_hit [OF px] Player_update_no_hit [OF pk]
      Player_assignToTeam_no_hit [OF px] Player_assignToTeam_no_hit [OF pk]
      Player_unassignFromTeam_no_hit [OF px] Player_unassignFromTeam_no_hit [OF pk]
      Player_delete_no_hit [OF px] Player_delete_no_hit [OF pk]
    have m: "Player_findById (p_id p) B d = None \<and> Player_findById k B d = None \<and>
        getPlayerById B (p_id p) d = failure 404 ''Player not found.'' \<and>
        getPlayerById B k d = failure 404 ''Player not found.'' \<and>
        Player_update now (p_id p) n ps jn tm B d = Player_update now k n ps jn tm B d \<and>
        no_row_written (Player_update now (p_id p) n ps jn tm B d) d \<and>
        Player_assignToTeam now (p_id p) ti B d = Player_assignToTeam now k ti B d \<and>
        no_row_written (Player_assignToTeam now (p_id p) ti B d) d \<and>
        Player_unassignFromTeam now (p_id p) B d = (False, d) \<and>
        Player_unassignFromTeam now k B d = (False, d) \<and>
        Player_delete (p_id p) B d = (False, d) \<and> Player_delete k B d = (False, d)"
      using Player_update_refused [OF px, of now n ps jn tm]
      by (simp add: reads writes getPlayerById_def no_row_written_def)
    from updatePlayer_no_hit [OF px, of now pb k] pk
    have h: "updatePlayer now B (p_id p) pb d = updatePlayer now B k pb d \<and>
        \<not> success (fst (updatePlayer now B (p_id p) pb d)) \<and>
        snd (updatePlayer now B (p_id p) pb d) = d"
      by blast
    from assignPlayerToTeam_no_hit [OF px, of now tid k] pk
    have g: "assignPlayerToTeam now B (p_id p) tid d = assignPlayerToTeam now B k tid d \<and>
        \<not> success (fst (assignPlayerToTeam now B (p_id p) tid d)) \<and>
        snd (assignPlayerToTeam now B (p_id p) tid d) = d"
      by blast
    from m h g
    show "Player_findById (p_id p) B d = None \<and> Player_findById k B d = None \<and>
        getPlayerById B (p_id p) d = failure 404 ''Player not found.'' \<and>
        getPlayerById B k d = failure 404 ''Player not found.'' \<and>
        Player_update now (p_id p) n ps jn tm B d = Player_update now k n ps jn tm B d \<and>
        no_row_written (Player_update now (p_id p) n ps jn tm B d) d \<and>
        Player_assignToTeam now (p_id p) ti B d = Player_assignToTeam now k ti B d \<and>
        no_row_written (Player_assignToTeam now (p_id p) ti B d) d \<and>
        Player_unassignFromTeam now (p_id p) B d = (False, d) \<and>
        Player_unassignFromTeam now k B d = (False, d) \<and>
        Player_delete (p_id p) B d = (False, d) \<and> Player_delete k B d = (False, d) \<and>
        updatePlayer now B (p_id p) pb d = updatePlayer now B k pb d \<and>
        \<not> success (fst (updatePlayer now B (p_id p) pb d)) \<and>
        snd (updatePlayer now B (p_id p) pb d) = d \<and>
        assignPlayerToTeam now B (p_id p) tid d = assignPlayerToTeam now B k tid d \<and>
        \<not> success (fst (assignPlayerToTeam now B (p_id p) tid d)) \<and>
        snd (assignPlayerToTeam now B (p_id p) tid d) = d"
      by blast
  qed
  have 3: "same_owner d \<longrightarrow>
        Team_findAllWithPlayerCounts coll B d =
          Team_findAllWithPlayerCounts coll B (own_rows B d) \<and>
        Team_findByIdWithPlayerCount i B d = Team_findByIdWithPlayerCount i B (own_rows B d) \<and>
        Player_findAllByUserId coll B d = Player_findAllByUserId coll B (own_rows B d) \<and>
        Player_findById i B d = Player_findById i B (own_rows B d) \<and>
        Player_search coll lc q B d = Player_search coll lc q B (own_rows B d) \<and>
        others_rows (caller w) (perform now w d) = others_rows (caller w) d"
  proof
    assume s: "same_owner d"
    show "Team_findAllWithPlayerCounts coll B d =
          Team_findAllWithPlayerCounts coll B (own_rows B d) \<and>
        Team_findByIdWithPlayerCount i B d = Team_findByIdWithPlayerCount i B (own_rows B d) \<and>
        Player_findAllByUserId coll B d = Player_findAllByUserId coll B (own_rows B d) \<and>
        Player_findById i B d = Player_findById i B (own_rows B d) \<and>
        Player_search coll lc q B d = Player_search coll lc q B (own_rows B d) \<and>
        others_rows (caller w) (perform now w d) = others_rows (caller w) d"
      by (simp add: joined_reads_own [OF s] writes_leave_others [OF s])
  qed
  have 4: "Team_findAllByUserId coll B d = Team_findAllByUserId coll B (own_rows B d) \<and>
     Team_countByUserId B d = Team_countByUserId B (own_rows B d) \<and>
     Team_findById i B d = Team_findById i B (own_rows B d) \<and>
     Team_getTeamHierarchy coll i B d = Team_getTeamHierarchy coll i B (own_rows B d) \<and>
     Player_findGlobalPlayers coll B d = Player_findGlobalPlayers coll B (own_rows B d) \<and>
     Player_findAllByTeamId coll i B d = Player_findAllByTeamId coll i B (own_rows B d) \<and>
     Player_countByUserId B d = Player_countByUserId B (own_rows B d) \<and>
     Player_countByTeamId i B d = Player_countByTeamId i B (own_rows B d)"
    by (simp add: plain_reads_own)
  have 5: "Team_findAllWithPlayerCounts coll B d =
             Team_findAllWithPlayerCounts coll B (own_teams B d) \<and>
     Player_findAllByUserId coll B d = Player_findAllByUserId coll B (own_players B d) \<and>
     Player_findById i B d = Player_findById i B (own_players B d) \<and>
     Player_search coll lc q B d = Player_search coll lc q B (own_players B d)"
    by (simp add: team_reads_own player_reads_own)
  from 1 2 3 4 5 show ?thesis by blast
qed

text \<open>
  C3 as stated fails where a team is not the row an operation selects but the team of
  a player. In the sample store no player references a team of another user, and team 1
  is of user 1: for user 2 it is not found, as team 9 is, which does not exist. Yet when
  user 2 assigns the own player Cy to team 1 the handler answers 200 with the name and
  the colour of that team, and for team 9 it answers 500. Afterwards the player count
  that user 1 reads for the own team has gone from 1 to 2, though user 1 has one player
  in it.
\<close>

theorem cross_owner_team_counterexample:
  "keys_ok sample \<and> same_owner sample \<and>
   mk_team 1 ''Lions'' 1 \<in> set (teams sample) \<and> t_user_id (mk_team 1 ''Lions'' 1) = 1 \<and>
   int32 9 \<and> 9 \<notin> set (map t_id (teams sample)) \<and>
   Team_findById 1 2 sample = None \<and> Team_findById 9 2 sample = None \<and>
   assignPlayerToTeam 7 2 4 (Some 1) sample =
     (succeed 200 ''Player assigned to team successfully.'' (Some cy_detail), cy_on_lions) \<and>
   pd_team_name cy_detail = ascii ''Lions'' \<and>
   assignPlayerToTeam 7 2 4 (Some 9) sample =
     (failure 500 ''Server error while assigning player.'', sample) \<and>
   map snd (Team_findAllWithPlayerCounts ascii_key 1 sample) = [1] \<and>
   map snd (Team_findAllWithPlayerCounts ascii_key 1 cy_on_lions) = [2] \<and>
   Player_countByTeamId 1 1 cy_on_lions = 1 \<and>
   others_rows 2 cy_on_lions = others_rows 2 sample"
proof -
  have m: "mk_team 1 ''Lions'' 1 \<in> set (teams sample)" "t_user_id (mk_team 1 ''Lions'' 1) = 1"
    "int32 9" "9 \<notin> set (map t_id (teams sample))"
    by (simp_all add: sample_def mk_team_def int32_def)
  have f: "Team_findById 1 2 sample = None" "Team_findById 9 2 sample = None"
    by (simp_all add: Team_findById_def first_row_def sample_def mk_team_def)
  have a: "Player_assignToTeam 7 4 1 2 sample = Inr (True, cy_on_lions)"
    "Player_assignToTeam 7 4 9 2 sample = Inl ForeignKeyViolation"
    by (simp_all add: Player_assignToTeam_def Let_def team_ref_ok_def sample_def mk_team_def
        mk_player_def cy_on_lions_def)
  have g: "Player_findById 4 2 cy_on_lions = Some cy_detail"
    by (simp add: Player_findById_def inner_join_def on_team_def first_row_def cy_on_lions_def
        sample_def mk_team_def mk_player_def select_detail_def cy_detail_def)
  have h: "assignPlayerToTeam 7 2 4 (Some 1) sample =
     (succeed 200 ''Player assigned to team successfully.'' (Some cy_detail), cy_on_lions)"
    "assignPlayerToTeam 7 2 4 (Some 9) sample =
     (failure 500 ''Server error while assigning player.'', sample)"
    by (simp_all add: assignPlayerToTeam_def a g)
  have n: "pd_team_name cy_detail = ascii ''Lions''"
    by (simp add: cy_detail_def)
  have c: "map snd (Team_findAllWithPlayerCounts ascii_key 1 sample) = [1]"
    "map snd (Team_findAllWithPlayerCounts ascii_key 1 cy_on_lions) = [2]"
    "Player_countByTeamId 1 1 cy_on_lions = 1"
    by (simp_all add: Team_findAllWithPlayerCounts_def Player_countByTeamId_def
        count_players_def on_team_def cy_on_lions_def sample_def mk_team_def mk_player_def)
  have o: "others_rows 2 cy_on_lions = others_rows 2 sample"
    by (simp add: others_rows_def cy_on_lions_def sample_def mk_team_def mk_player_def)
  from keys_ok_sample same_owner_sample m f h(1) n h(2) c o
  show ?thesis by (intro conjI)
qed

theorem cross_owner_is_not_found_witness:
  "keys_ok sample \<and> same_owner sample \<and>
   mk_team 1 ''Lions'' 1 \<in> set (teams sample) \<and> t_user_id (mk_team 1 ''Lions'' 1) \<noteq> 2 \<and>
   int32 7 \<and> 7 \<notin> set (map t_id (teams sample)) \<and>
   mk_player 2 ''Amy'' (Some 1) 1 \<in> set (players sample) \<and>
   p_user_id (mk_player 2 ''Amy'' (Some 1) 1) \<noteq> 2 \<and>
   int32 9 \<and> 9 \<notin> set (map p_id (players sample)) \<and>
   Team_findById 1 2 sample = None \<and> Team_findById 7 2 sample = None \<and>
   Team_delete 1 2 sample = (False, sample) \<and> Team_delete 7 2 sample = (False, sample) \<and>
   Player_findById 2 2 sample = None \<and> Player_findById 9 2 sample = None \<and>
   getPlayerById 2 2 sample = failure 404 ''Player not found.'' \<and>
   Player_delete 2 2 sample = (False, sample) \<and> Player_delete 9 2 sample = (False, sample) \<and>
   Team_findById 1 1 sample \<noteq> None \<and> Player_findById 2 1 sample \<noteq> None \<and>
   Player_findAllByUserId ascii_key 2 sample =
     Player_findAllByUserId ascii_key 2 (own_rows 2 sample) \<and>
   teams (own_rows 2 sample) = [mk_team 2 ''Tigers'' 2] \<and>
   players (own_rows 2 sample) = [mk_player 4 ''Cy'' (Some 2) 2] \<and>
   others_rows 2 (perform 7 (TeamDelete 2 2) sample) = others_rows 2 sample"
proof -
  have m: "mk_team 1 ''Lions'' 1 \<in> set (teams sample)"
    "mk_player 2 ''Amy'' (Some 1) 1 \<in> set (players sample)"
    by (simp_all add: sample_def)
  have h: "t_user_id (mk_team 1 ''Lions'' 1) \<noteq> 2" "7 \<notin> set (map t_id (teams sample))"
    "p_user_id (mk_player 2 ''Amy'' (Some 1) 1) \<noteq> 2" "9 \<notin> set (map p_id (players sample))"
    "int32 7" "int32 9"
    by (simp_all add: sample_def mk_team_def mk_player_def int32_def)
  have i: "t_id (mk_team 1 ''Lions'' 1) = 1" "p_id (mk_player 2 ''Amy'' (Some 1) 1) = 2"
    by (simp_all add: mk_team_def mk_player_def)
  have own: "Team_findById 1 1 sample \<noteq> None" "Player_findById 2 1 sample \<noteq> None"
    by (simp_all add: Team_findById_def Player_findById_def sample_def mk_team_def
        mk_player_def first_row_def inner_join_def on_team_def)
  have r: "teams (own_rows 2 sample) = [mk_team 2 ''Tigers'' 2]"
    "players (own_rows 2 sample) = [mk_player 4 ''Cy'' (Some 2) 2]"
    by (simp_all add: own_rows_def own_teams_def own_players_def sample_def mk_team_def
        mk_player_def)
  have c: "caller (TeamDelete 2 2) = 2" by simp
  note x = cross_owner_is_not_found [OF keys_ok_sample,
      where B = 2 and coll = ascii_key and now = 7 and n = "[]" and l = "[]" and c = "[]"
        and ds = "[]" and ps = None and jn = None and tm = None and ti = 1 and i = 1
        and tb = bears_body and pb = amy_body and tid = "Some 1"
        and lc = "map ascii_lower" and q = "[]" and w = "TeamDelete 2 2"]
  from x [THEN conjunct1, THEN bspec, OF m(1), THEN spec, of 7] h(1,2,5)
  have t: "Team_findById 1 2 sample = None" "Team_findById 7 2 sample = None"
    "Team_delete 1 2 sample = (False, sample)" "Team_delete 7 2 sample = (False, sample)"
    by (simp_all add: i)
  from x [THEN conjunct2, THEN conjunct1, THEN bspec, OF m(2), THEN spec, of 9] h(3,4,6)
  have p: "Player_findById 2 2 sample = None" "Player_findById 9 2 sample = None"
    "getPlayerById 2 2 sample = failure 404 ''Player not found.''"
    "Player_delete 2 2 sample = (False, sample)" "Player_delete 9 2 sample = (False, sample)"
    by (simp_all add: i)
  from x same_owner_sample
  have j: "Player_findAllByUserId ascii_key 2 sample =
             Player_findAllByUserId ascii_key 2 (own_rows 2 sample)"
    "others_rows 2 (perform 7 (TeamDelete 2 2) sample) = others_rows 2 sample"
    unfolding c by blast+
  from keys_ok_sample same_owner_sample m(1) h(1,5,2) m(2) h(3,6,4) t(1,2,3,4) p own j(1) r j(2)
  show ?thesis by (intro conjI)
qed

subsection \<open>Looking a player up by id\<close>

lemma filter_key_single:
  "distinct (map f xs) \<Longrightarrow> x \<in> set xs \<Longrightarrow> filter (\<lambda>y. f y = f x \<and> g y = g x) xs = [x]"
proof (induction xs)
  case Nil
  then show ?case by simp
next
  case (Cons a xs)
  show ?case
  proof (cases "a = x")
    case True
    with Cons.prems have "f x \<notin> f ` set xs" by simp
    then have "\<forall>y\<in>set xs. f y \<noteq> f x" by (metis imageI)
    then have "filter (\<lambda>y. f y = f x \<and> g y = g x) xs = []"
      by (auto simp: filter_empty_conv)
    with True show ?thesis by simp
  next
    case False
    with Cons.prems have "x \<in> set xs" "f a \<noteq> f x" by auto
    with Cons show ?thesis by simp
  qed
qed

lemma own_player_single:
  "keys_ok d \<Longrightarrow> p \<in> set (players d) \<Longrightarrow>
   filter (\<lambda>x. p_id x = p_id p \<and> p_user_id x = p_user_id p) (players d) = [p]"
  by (simp add: keys_ok_def filter_key_single)

lemma team_of_single:
  assumes "keys_ok d" "t \<in> set (teams d)" "team_id p = Some (t_id t)"
  shows "filter (on_team p) (teams d) = [t]"
proof -
  have "filter (\<lambda>y. t_id y = t_id t \<and> True = True) (teams d) = [t]"
    using assms(1,2) filter_key_single [of t_id "teams d" t "\<lambda>_. True"]
    by (simp add: keys_ok_def)
  moreover have "on_team p = (\<lambda>y. t_id y = t_id t)"
    using assms(3) by (auto simp: on_team_def fun_eq_iff)
  ultimately show ?thesis by simp
qed

lemma Player_findById_own:
  assumes "keys_ok d" "p \<in> set (players d)"
  shows "Player_findById (p_id p) (p_user_id p) d =
           first_row (map (\<lambda>t. select_detail (p, t)) (filter (on_team p) (teams d)))"
proof -
  have "filter (\<lambda>r. p_id (fst r) = p_id p \<and> p_user_id (fst r) = p_user_id p)
          (inner_join (players d) (teams d)) =
        inner_join (filter (\<lambda>x. p_id x = p_id p \<and> p_user_id x = p_user_id p) (players d))
          (teams d)"
    by (rule inner_join_filter)
  also have "\<dots> = map (Pair p) (filter (on_team p) (teams d))"
    by (simp add: own_player_single [OF assms] inner_join_def)
  finally show ?thesis
    by (simp add: Player_findById_def comp_def)
qed

lemma no_team_no_match: "team_id p = None \<Longrightarrow> filter (on_team p) ts = []"
  by (simp add: on_team_def)

text \<open>
  C4. Let the primary keys and the players' foreign key hold, and let \<open>p\<close> be a player
  row. If \<open>p\<close> has no team, \<^verbatim>\<open>Player.findById\<close> with the player's id and owner returns
  null and the handler answers 404, while \<^verbatim>\<open>findGlobalPlayers\<close> of the same owner lists
  the player, with the id, name, position, jersey number and timestamps of \<open>p\<close>. If \<open>p\<close>
  has a team, \<^verbatim>\<open>Player.findById\<close> returns the row that holds the id, name, position,
  jersey number, team id and timestamps of \<open>p\<close> and the name and colour of the team of
  that id, and the handler answers 200 with this row.
\<close>

theorem find_by_id_needs_team:
  assumes "keys_ok d" and "refs_ok d" and "p \<in> set (players d)"
  shows "case team_id p of
           None \<Rightarrow>
             Player_findById (p_id p) (p_user_id p) d = None \<and>
             getPlayerById (p_user_id p) (p_id p) d = failure 404 ''Player not found.'' \<and>
             \<lparr>pr_id = p_id p, pr_player_name = player_name p, pr_position = position p,
              pr_jersey_number = jersey_number p, pr_created_at = p_created_at p,
              pr_updated_at = p_updated_at p\<rparr>
               \<in> set (Player_findGlobalPlayers coll (p_user_id p) d)
         | Some i \<Rightarrow>
             \<exists>t \<in> set (teams d). t_id t = i \<and>
               Player_findById (p_id p) (p_user_id p) d =
                 Some \<lparr>pd_id = p_id p, pd_player_name = player_name p,
                       pd_position = position p, pd_jersey_number = jersey_number p,
                       pd_team_id = Some i, pd_team_name = team_name t,
                       pd_team_color = team_color t, pd_created_at = p_created_at p,
                       pd_updated_at = p_updated_at p\<rparr> \<and>
               getPlayerById (p_user_id p) (p_id p) d =
                 \<lparr>status = 200, success = True, message = None, data_count = None,
                  data = Data \<lparr>pd_id = p_id p, pd_player_name = player_name p,
                               pd_position = position p, pd_jersey_number = jersey_number p,
                               pd_team_id = Some i, pd_team_name = team_name t,
                               pd_team_color = team_color t, pd_created_at = p_created_at p,
                               pd_updated_at = p_updated_at p\<rparr>\<rparr>"
proof (cases "team_id p")
  case None
  have "Player_findById (p_id p) (p_user_id p) d = None"
    by (simp add: Player_findById_own [OF assms(1,3)] no_team_no_match [OF None] first_row_def)
  moreover from this
  have "getPlayerById (p_user_id p) (p_id p) d = failure 404 ''Player not found.''"
    by (simp add: getPlayerById_def)
  moreover have "\<lparr>pr_id = p_id p, pr_player_name = player_name p, pr_position = position p,
              pr_jersey_number = jersey_number p, pr_created_at = p_created_at p,
              pr_updated_at = p_updated_at p\<rparr>
               \<in> set (Player_findGlobalPlayers coll (p_user_id p) d)"
    using global_player_listed [OF assms(3) None, of coll] by (simp add: select_player_def)
  ultimately show ?thesis using None by simp
next
  case (Some i)
  from assms(2,3) have "team_ref_ok (team_id p) d"
    by (simp add: refs_ok_def list_all_iff)
  with Some obtain t where t: "t \<in> set (teams d)" "t_id t = i"
    by (auto simp: team_ref_ok_def)
  with Some have "team_id p = Some (t_id t)" by simp
  then have "filter (on_team p) (teams d) = [t]"
    by (rule team_of_single [OF assms(1) t(1)])
  then have f: "Player_findById (p_id p) (p_user_id p) d =
                 Some \<lparr>pd_id = p_id p, pd_player_name = player_name p,
                       pd_position = position p, pd_jersey_number = jersey_number p,
                       pd_team_id = Some i, pd_team_name = team_name t,
                       pd_team_color = team_color t, pd_created_at = p_created_at p,
                       pd_updated_at = p_updated_at p\<rparr>"
    by (simp add: Player_findById_own [OF assms(1,3)] first_row_def select_detail_def Some)
  then have "getPlayerById (p_user_id p) (p_id p) d =
                 \<lparr>status = 200, success = True, message = None, data_count = None,
                  data = Data \<lparr>pd_id = p_id p, pd_player_name = player_name p,
                               pd_position = position p, pd_jersey_number = jersey_number p,
                               pd_team_id = Some i, pd_team_name = team_name t,
                               pd_team_color = team_color t, pd_created_at = p_created_at p,
                               pd_updated_at = p_updated_at p\<rparr>\<rparr>"
    by (simp add: getPlayerById_def)
  with f t Some show ?thesis by auto
qed

theorem find_by_id_needs_team_witness:
  "keys_ok sample \<and> refs_ok sample \<and>
   mk_player 3 ''Bob'' None 1 \<in> set (players sample) \<and>
   Player_findById 3 1 sample = None \<and>
   getPlayerById 1 3 sample = failure 404 ''Player not found.'' \<and>
   \<lparr>pr_id = 3, pr_player_name = ascii ''Bob'', pr_position = None, pr_jersey_number = None,
    pr_created_at = 0, pr_updated_at = 0\<rparr> \<in> set (Player_findGlobalPlayers ascii_key 1 sample) \<and>
   mk_player 2 ''Amy'' (Some 1) 1 \<in> set (players sample) \<and>
   Player_findById 2 1 sample = Some amy_detail \<and>
   pd_player_name amy_detail = ascii ''Amy'' \<and> pd_team_id amy_detail = Some 1 \<and>
   pd_team_name amy_detail = ascii ''Lions'' \<and>
   pd_team_color amy_detail = Some (ascii ''#0ea5e9'') \<and>
   getPlayerById 1 2 sample =
     \<lparr>status = 200, success = True, message = None, data_count = None,
      data = Data amy_detail\<rparr>"
proof -
  have m: "mk_player 3 ''Bob'' None 1 \<in> set (players sample)"
    "mk_player 2 ''Amy'' (Some 1) 1 \<in> set (players sample)"
    by (simp_all add: sample_def)
  have b: "team_id (mk_player 3 ''Bob'' None 1) = None"
    by (simp add: mk_player_def)
  have a: "team_id (mk_player 2 ''Amy'' (Some 1) 1) = Some 1"
    by (simp add: mk_player_def)
  have ts: "set (teams sample) = {mk_team 1 ''Lions'' 1, mk_team 2 ''Tigers'' 2}"
    by (simp add: sample_def)
  from find_by_id_needs_team [OF keys_ok_sample refs_ok_sample m(1), of ascii_key]
  have 1: "Player_findById 3 1 sample = None"
    "getPlayerById 1 3 sample = failure 404 ''Player not found.''"
    "\<lparr>pr_id = 3, pr_player_name = ascii ''Bob'', pr_position = None, pr_jersey_number = None,
      pr_created_at = 0, pr_updated_at = 0\<rparr> \<in> set (Player_findGlobalPlayers ascii_key 1 sample)"
    unfolding b by (simp_all add: mk_player_def)
  from find_by_id_needs_team [OF keys_ok_sample refs_ok_sample m(2)]
  have 2: "Player_findById 2 1 sample = Some amy_detail"
    "getPlayerById 1 2 sample =
       \<lparr>status = 200, success = True, message = None, data_count = None,
        data = Data amy_detail\<rparr>"
    unfolding a ts by (simp_all add: mk_player_def mk_team_def amy_detail_def)
  have 3: "pd_player_name amy_detail = ascii ''Amy''" "pd_team_id amy_detail = Some 1"
    "pd_team_name amy_detail = ascii ''Lions''"
    "pd_team_color amy_detail = Some (ascii ''#0ea5e9'')"
    by (simp_all add: amy_detail_def)
  from keys_ok_sample refs_ok_sample m(1) 1 m(2) 2(1) 3 2(2)
  show ?thesis by (intro conjI)
qed

subsection \<open>Listing the players of a user\<close>

lemma filter_on_team_find:
  "distinct (map t_id ts) \<Longrightarrow>
   filter (on_team p) ts = (case find (on_team p) ts of None \<Rightarrow> [] | Some t \<Rightarrow> [t])"
proof (induction ts)
  case Nil
  then show ?case by simp
next
  case (Cons a ts)
  show ?case
  proof (cases "on_team p a")
    case True
    with Cons.prems have "\<forall>t\<in>set ts. \<not> on_team p t"
      by (auto simp: on_team_def image_iff)
    then have "filter (on_team p) ts = []" by (simp add: filter_empty_conv)
    with True show ?thesis by simp
  next
    case False
    with Cons show ?thesis by simp
  qed
qed

lemma left_join_with_team:
  "keys_ok d \<Longrightarrow> left_join ps (teams d) = map (with_team d) ps"
proof (induction ps)
  case Nil
  then show ?case by (simp add: left_join_def)
next
  case (Cons p ps)
  from Cons.prems have "distinct (map t_id (teams d))" by (simp add: keys_ok_def)
  from filter_on_team_find [OF this, of p]
  have "(case filter (on_team p) (teams d) of [] \<Rightarrow> [(p, None)]
           | m # ms \<Rightarrow> map (\<lambda>t. (p, Some t)) (m # ms)) = [with_team d p]"
    by (simp add: with_team_def split: option.splits)
  with Cons show ?case by (simp add: left_join_def)
qed

lemma listing_key_le:
  "listing_key coll a \<le> listing_key coll b \<Longrightarrow>
   listed_before coll (select_listing a) (select_listing b)"
  by (cases a; cases b)
     (auto simp: listing_key_def listed_before_def select_listing_def option.map_comp comp_def
           split: if_splits)






subsection \<open>Searching players\<close>

lemma like_any_all: "like [37] s"
  by (induction s) auto

lemma like_any: "like (37 # ps) s = (\<exists>u v. s = u @ v \<and> like ps v)"
proof (induction s)
  case Nil
  then show ?case by (cases ps) auto
next
  case (Cons c cs)
  have "like (37 # ps) (c # cs) = (like ps (c # cs) \<or> like (37 # ps) cs)" by simp
  also have "\<dots> = (like ps (c # cs) \<or> (\<exists>u v. cs = u @ v \<and> like ps v))"
    by (simp only: Cons.IH)
  also have "\<dots> = (\<exists>u v. c # cs = u @ v \<and> like ps v)"
  proof
    assume "like ps (c # cs) \<or> (\<exists>u v. cs = u @ v \<and> like ps v)"
    then show "\<exists>u v. c # cs = u @ v \<and> like ps v"
    proof
      assume "like ps (c # cs)"
      then have "c # cs = [] @ (c # cs) \<and> like ps (c # cs)" by simp
      then show ?thesis by blast
    next
      assume "\<exists>u v. cs = u @ v \<and> like ps v"
      then obtain u v where "cs = u @ v" "like ps v" by blast
      then have "c # cs = (c # u) @ v \<and> like ps v" by simp
      then show ?thesis by blast
    qed
  next
    assume "\<exists>u v. c # cs = u @ v \<and> like ps v"
    then obtain u v where uv: "c # cs = u @ v" "like ps v" by blast
    show "like ps (c # cs) \<or> (\<exists>u v. cs = u @ v \<and> like ps v)"
    proof (cases u)
      case Nil
      with uv show ?thesis by simp
    next
      case (Cons a u')
      with uv have "cs = u' @ v" by simp
      with uv(2) show ?thesis by blast
    qed
  qed
  finally show ?case .
qed

lemma like_literal:
  "list_all (\<lambda>c. c \<noteq> 37 \<and> c \<noteq> 92 \<and> c \<noteq> 95) q \<Longrightarrow>
   like (q @ ps) s = (\<exists>v. s = q @ v \<and> like ps v)"
proof (induction q arbitrary: s)
  case Nil
  then show ?case by simp
next
  case (Cons a q)
  then have a: "a \<noteq> 37" "a \<noteq> 92" "a \<noteq> 95"
    and q: "list_all (\<lambda>c. c \<noteq> 37 \<and> c \<noteq> 92 \<and> c \<noteq> 95) q" by simp_all
  show ?case
  proof (cases s)
    case Nil
    with a show ?thesis by simp
  next
    case (Cons c cs)
    with a Cons.IH [OF q, of cs] show ?thesis by auto
  qed
qed

lemma like_contains:
  assumes "list_all (\<lambda>c. c \<noteq> 37 \<and> c \<noteq> 92 \<and> c \<noteq> 95) q"
  shows "like (37 # q @ [37]) s = sublist q s"
proof -
  have "like (37 # q @ [37]) s = (\<exists>u v. s = u @ v \<and> like (q @ [37]) v)"
    by (rule like_any)
  also have "\<dots> = (\<exists>u v. s = u @ v \<and> (\<exists>w. v = q @ w \<and> like [37] w))"
    by (simp only: like_literal [OF assms])
  also have "\<dots> = (\<exists>u w. s = u @ q @ w)"
    by (auto simp: like_any_all)
  finally show ?thesis by (simp add: sublist_def)
qed

text \<open>\<^verbatim>\<open>LIKE\<close> decides what a pattern stands for.\<close>

inductive_cases matched_any_textE: "matched (37 # p) s"

lemma matched_any_more: "matched (37 # p) s \<Longrightarrow> matched (37 # p) (c # s)"
  by (erule matched_any_textE) (metis append_Cons matched.any_text)

lemma like_matched: "like p s \<Longrightarrow> matched p s"
proof (induction p s rule: like.induct)
  case (1 s)
  then show ?case by (simp add: matched.empty)
next
  case (2 p ps)
  then have "p = 37" "matched ps []" by simp_all
  then show ?case using matched.any_text [of ps "[]" "[]"] by simp
next
  case (3 p ps c cs)
  show ?case
  proof (cases "p = 37")
    case True
    with 3 have "matched ps (c # cs) \<or> matched (37 # ps) cs" by auto
    then show ?thesis
    proof
      assume "matched ps (c # cs)"
      then show ?thesis using True matched.any_text [of ps "c # cs" "[]"] by simp
    next
      assume "matched (37 # ps) cs"
      then show ?thesis using True by (simp add: matched_any_more)
    qed
  next
    case False
    note p37 = False
    show ?thesis
    proof (cases "p = 95")
      case True
      with 3 p37 show ?thesis by (auto intro: matched.any_char)
    next
      case False
      note p95 = False
      show ?thesis
      proof (cases "p = 92")
        case True
        with "3.prems" p37 p95 obtain qs where ps: "ps = c # qs" and l: "like qs cs"
          by (auto split: list.splits)
        from "3.IH"(4) [OF p37 p95 True ps] l have "matched qs cs" by simp
        with True ps show ?thesis by (auto intro: matched.escaped)
      next
        case False
        with 3 p37 p95 show ?thesis by (auto intro: matched.itself)
      qed
    qed
  qed
qed

lemma matched_like: "matched p s \<Longrightarrow> like p s"
proof (induction rule: matched.induct)
  case empty
  then show ?case by simp
next
  case (any_text p s u)
  then show ?case by (auto simp: like_any)
next
  case (any_char p s c)
  then show ?case by simp
next
  case (escaped p s c)
  then show ?case by simp
next
  case (itself c p s)
  then show ?case by simp
qed

lemma like_iff_matched: "like p s = matched p s"
  using like_matched matched_like by blast

text \<open>The search under a locale that lower-cases character by character.\<close>

lemma utf8_text_well_formed: "well_formed x \<Longrightarrow> utf8_text x = x"
  by (induction x rule: utf8_text.induct) (auto simp: well_formed_def)

lemma search_pattern:
  assumes "well_formed x" and "f 37 = 37"
  shows "text_param ([37] @ x @ [37]) = Inr (37 # x @ [37])"
    and "ilike (map f) s (37 # x @ [37]) = matched (37 # map f x @ [37]) (map f s)"
proof -
  from assms(1) have "well_formed ([37] @ x @ [37])" by (simp add: well_formed_def)
  then have "utf8_text ([37] @ x @ [37]) = [37] @ x @ [37]" by (rule utf8_text_well_formed)
  moreover from assms(1) have "0 \<notin> set x" by (auto simp: well_formed_def list_all_iff)
  ultimately show "text_param ([37] @ x @ [37]) = Inr (37 # x @ [37])"
    by (simp add: text_param_def)
  show "ilike (map f) s (37 # x @ [37]) = matched (37 # map f x @ [37]) (map f s)"
    by (simp add: ilike_def assms(2) like_iff_matched)
qed

lemma search_rows:
  assumes keys: "keys_ok d" and wf: "well_formed x" and f: "f 37 = 37"
  shows "Player_search coll (map f) x u d =
           Inr (map select_listing
                  (sort_key (listing_key coll)
                     (map (with_team d)
                        (filter (\<lambda>p. p_user_id p = u \<and> pattern_matches f x d p) (players d)))))"
proof -
  have "filter (\<lambda>r. p_user_id (fst r) = u \<and>
                    (ilike (map f) (player_name (fst r)) (37 # x @ [37]) \<or>
                     (case snd r of None \<Rightarrow> False
                      | Some t \<Rightarrow> ilike (map f) (team_name t) (37 # x @ [37]))))
          (left_join (players d) (teams d)) =
        map (with_team d) (filter (\<lambda>p. p_user_id p = u \<and> pattern_matches f x d p) (players d))"
    by (simp only: left_join_with_team [OF keys] search_pattern(2) [of x f, OF wf f])
       (simp add: filter_map comp_def with_team_def pattern_matches_def)
  then show ?thesis
    by (simp only: Player_search_def search_pattern(1) [of x f, OF wf f] and_then_def
        sum.case)
qed

lemma plain_pattern:
  assumes "plain_text q"
    and "\<And>c. (f c = 37) = (c = 37)" and "\<And>c. (f c = 92) = (c = 92)"
    and "\<And>c. (f c = 95) = (c = 95)"
  shows "pattern_matches f q d p = text_matches f q d p"
proof -
  from assms have "list_all (\<lambda>c. c \<noteq> 37 \<and> c \<noteq> 92 \<and> c \<noteq> 95) (map f q)"
    by (simp add: plain_text_def list_all_iff)
  from like_contains [OF this]
  have "matched (37 # map f q @ [37]) s = sublist (map f q) s" for s
    by (simp add: like_iff_matched)
  then show ?thesis
    by (simp add: pattern_matches_def text_matches_def contains_ci_def cong: option.case_cong)
qed

lemma sorted_listing:
  "sorted_wrt (listed_before coll) (map select_listing (sort_key (listing_key coll) xs))"
proof -
  have "sorted (map (listing_key coll) (sort_key (listing_key coll) xs))"
    by (rule sorted_sort_key)
  then have "sorted_wrt (\<lambda>a b. listing_key coll a \<le> listing_key coll b)
               (sort_key (listing_key coll) xs)"
    by (simp add: sorted_map)
  then have "sorted_wrt (\<lambda>a b. listed_before coll (select_listing a) (select_listing b))
               (sort_key (listing_key coll) xs)"
    by (rule sorted_wrt_mono_rel [rotated]) (simp add: listing_key_le)
  then show ?thesis
    by (simp add: sorted_wrt_map)
qed

lemma search_found:
  assumes "keys_ok d" and "well_formed x" and "f 37 = 37"
  shows "\<exists>rows. Player_search coll (map f) x u d = Inr rows \<and>
           mset rows = mset (map (\<lambda>p. select_listing (with_team d p))
                               (filter (\<lambda>p. p_user_id p = u \<and> pattern_matches f x d p)
                                  (players d))) \<and>
           sorted_wrt (listed_before coll) rows"
proof -
  let ?rows = "map select_listing
                 (sort_key (listing_key coll)
                    (map (with_team d)
                       (filter (\<lambda>p. p_user_id p = u \<and> pattern_matches f x d p) (players d))))"
  have 1: "Player_search coll (map f) x u d = Inr ?rows"
    by (rule search_rows [of d x f, OF assms])
  have 2: "mset ?rows = mset (map (\<lambda>p. select_listing (with_team d p))
                               (filter (\<lambda>p. p_user_id p = u \<and> pattern_matches f x d p)
                                  (players d)))"
    by (simp add: multiset.map_comp comp_def)
  have 3: "sorted_wrt (listed_before coll) ?rows"
    by (rule sorted_listing)
  from 1 2 3 show ?thesis by blast
qed

lemma searchPlayers_blank:
  "blank w \<Longrightarrow> searchPlayers coll lc u w d = failure 400 ''Search query is required.''"
  by (auto simp: blank_def searchPlayers_def split: option.splits)

lemma searchPlayers_query:
  "\<not> blank (Some s) \<Longrightarrow> Player_search coll lc (trim s) u d = Inr rows \<Longrightarrow>
   searchPlayers coll lc u (Some s) d =
     \<lparr>status = 200, success = True, message = None, data_count = Some (length rows),
      data = Data rows\<rparr>"
  by (auto simp: blank_def searchPlayers_def trim_def)

text \<open>
  C6, as amended. Let the primary keys hold, and let the locale of the database
  lower-case a text character by character, with a function \<open>f\<close> that maps each of
  \<^verbatim>\<open>%\<close>, \<^verbatim>\<open>_\<close> and the backslash to itself and no other character to one of them. Let
  the text \<open>q\<close> hold none of \<^verbatim>\<open>%\<close>, \<^verbatim>\<open>_\<close>, backslash, the code point 0 and the
  surrogates. Then \<^verbatim>\<open>Player.search\<close> returns, as a multiset, the listing rows of exactly
  those players of the user whose name, or whose team's name, contains \<open>q\<close> once both
  are lower-cased, in the order of the listing. For every text \<open>x\<close> without the code
  point 0 and the surrogates it returns the listing rows of exactly those players of the
  user whose name, or whose team's name, lower-cased, is of the lower-cased pattern
  \<^verbatim>\<open>%x%\<close>, in which \<^verbatim>\<open>%\<close> stands for any text, \<^verbatim>\<open>_\<close> for any one character and a
  backslash with the character after it for that character. The handler answers a query
  that is absent, empty or all white space with 400 whatever the store holds, and any
  other query with the rows \<^verbatim>\<open>Player.search\<close> returns for the trimmed query. In the
  sample store under the C locale the query \<^verbatim>\<open>lions\<close> finds Amy, whose name does not
  contain it, by her team Lions.
\<close>

theorem search_plain_text:
  assumes "keys_ok d"
    and "\<And>c. (f c = 37) = (c = 37)" and "\<And>c. (f c = 92) = (c = 92)"
    and "\<And>c. (f c = 95) = (c = 95)"
    and "plain_text q" and "well_formed x" and "blank w" and "\<not> blank (Some s)"
    and "Player_search coll (map f) (trim s) u d = Inr found"
  shows "(\<exists>rows. Player_search coll (map f) q u d = Inr rows \<and>
            mset rows = mset (map (\<lambda>p. select_listing (with_team d p))
                                (filter (\<lambda>p. p_user_id p = u \<and> text_matches f q d p)
                                   (players d))) \<and>
            sorted_wrt (listed_before coll) rows) \<and>
         (\<exists>rows. Player_search coll (map f) x u d = Inr rows \<and>
            mset rows = mset (map (\<lambda>p. select_listing (with_team d p))
                                (filter (\<lambda>p. p_user_id p = u \<and> pattern_matches f x d p)
                                   (players d))) \<and>
            sorted_wrt (listed_before coll) rows) \<and>
         searchPlayers coll (map f) u w d = failure 400 ''Search query is required.'' \<and>
         searchPlayers coll (map f) u (Some s) d =
           \<lparr>status = 200, success = True, message = None,
            data_count = Some (length found), data = Data found\<rparr>"
proof -
  have f: "f 37 = 37" using assms(2) [of 37] by simp
  from assms(5) have wf: "well_formed q" by (simp add: plain_text_def)
  have "pattern_matches f q d p = text_matches f q d p" for p
    by (rule plain_pattern [OF assms(5) assms(2,3,4)])
  with search_found [of d q f coll u, OF assms(1) wf f]
  have 1: "\<exists>rows. Player_search coll (map f) q u d = Inr rows \<and>
            mset rows = mset (map (\<lambda>p. select_listing (with_team d p))
                                (filter (\<lambda>p. p_user_id p = u \<and> text_matches f q d p)
                                   (players d))) \<and>
            sorted_wrt (listed_before coll) rows"
    by simp
  note 2 = search_found [of d x f coll u, OF assms(1,6) f]
  from 1 2 searchPlayers_blank [OF assms(7)] searchPlayers_query [OF assms(8,9)]
  show ?thesis by (intro conjI)
qed

lemma ascii_simps:
  "ascii ''_'' = [95]" "ascii ''lions'' = [108, 105, 111, 110, 115]"
  "ascii ''Lions'' = [76, 105, 111, 110, 115]" "ascii ''Tigers'' = [84, 105, 103, 101, 114, 115]"
  "ascii ''Zed'' = [90, 101, 100]" "ascii ''Amy'' = [65, 109, 121]" "ascii ''Bob'' = [66, 111, 98]"
  "ascii ''Cy'' = [67, 121]" "ascii ''  '' = [32, 32]" "ascii '' LION '' = [32, 76, 73, 79, 78, 32]"
  "ascii ''#0ea5e9'' = [35, 48, 101, 97, 53, 101, 57]"
  by (simp_all add: ascii_def)

text \<open>
  C6 as stated fails on a query that holds a pattern character: the query \<^verbatim>\<open>_\<close> returns
  all three players of user 1 in the sample store, though neither a player's name nor
  the team's name contains an underscore.
\<close>

theorem search_wildcard_counterexample:
  "Player_search ascii_key (map ascii_lower) (ascii ''_'') 1 sample =
     Inr [select_listing (mk_player 3 ''Bob'' None 1, None),
          select_listing (mk_player 1 ''Zed'' None 1, None),
          select_listing (mk_player 2 ''Amy'' (Some 1) 1, Some (mk_team 1 ''Lions'' 1))] \<and>
   map pl_player_name
     [select_listing (mk_player 3 ''Bob'' None 1, None),
      select_listing (mk_player 1 ''Zed'' None 1, None),
      select_listing (mk_player 2 ''Amy'' (Some 1) 1, Some (mk_team 1 ''Lions'' 1))] =
     [ascii ''Bob'', ascii ''Zed'', ascii ''Amy''] \<and>
   \<not> text_matches ascii_lower (ascii ''_'') sample (mk_player 3 ''Bob'' None 1) \<and>
   \<not> text_matches ascii_lower (ascii ''_'') sample (mk_player 1 ''Zed'' None 1) \<and>
   \<not> text_matches ascii_lower (ascii ''_'') sample (mk_player 2 ''Amy'' (Some 1) 1)"
proof -
  have 1: "Player_search ascii_key (map ascii_lower) (ascii ''_'') 1 sample =
     Inr [select_listing (mk_player 3 ''Bob'' None 1, None),
          select_listing (mk_player 1 ''Zed'' None 1, None),
          select_listing (mk_player 2 ''Amy'' (Some 1) 1, Some (mk_team 1 ''Lions'' 1))]"
    by (simp add: Player_search_def text_param_def and_then_def sample_def
        mk_team_def mk_player_def left_join_def on_team_def ilike_def ascii_lower_def
        listing_key_def ascii_key_def ascii_simps)
  have 2: "\<not> text_matches ascii_lower (ascii ''_'') sample (mk_player 3 ''Bob'' None 1)"
    by (simp add: text_matches_def contains_ci_def sample_def mk_team_def mk_player_def
        on_team_def ascii_lower_def ascii_simps sublist_Cons_right)
  have 3: "\<not> text_matches ascii_lower (ascii ''_'') sample (mk_player 1 ''Zed'' None 1)"
    "\<not> text_matches ascii_lower (ascii ''_'') sample (mk_player 2 ''Amy'' (Some 1) 1)"
    by (simp_all add: text_matches_def contains_ci_def sample_def mk_team_def mk_player_def
        on_team_def ascii_lower_def ascii_simps sublist_Cons_right)
  have 4: "map pl_player_name
     [select_listing (mk_player 3 ''Bob'' None 1, None),
      select_listing (mk_player 1 ''Zed'' None 1, None),
      select_listing (mk_player 2 ''Amy'' (Some 1) 1, Some (mk_team 1 ''Lions'' 1))] =
     [ascii ''Bob'', ascii ''Zed'', ascii ''Amy'']"
    by (simp add: select_listing_def mk_player_def)
  from 1 4 2 3 show ?thesis by (intro conjI)
qed

theorem search_plain_text_witness:
  "keys_ok sample \<and>
   (\<forall>c. (ascii_lower c = 37) = (c = 37)) \<and> (\<forall>c. (ascii_lower c = 92) = (c = 92)) \<and>
   (\<forall>c. (ascii_lower c = 95) = (c = 95)) \<and>
   plain_text (ascii ''lions'') \<and> well_formed (ascii ''_'') \<and> blank (Some (ascii ''  '')) \<and>
   \<not> blank (Some (ascii '' LION '')) \<and>
   Player_search ascii_key (map ascii_lower) (trim (ascii '' LION '')) 1 sample =
     Inr [amy_listing] \<and>
   Player_search ascii_key (map ascii_lower) (ascii ''lions'') 1 sample = Inr [amy_listing] \<and>
   \<not> contains_ci ascii_lower (ascii ''lions'') (ascii ''Amy'') \<and>
   contains_ci ascii_lower (ascii ''lions'') (ascii ''Lions'') \<and>
   (\<exists>rows. Player_search ascii_key (map ascii_lower) (ascii ''_'') 1 sample = Inr rows \<and>
      length rows = 3) \<and>
   searchPlayers ascii_key (map ascii_lower) 1 (Some (ascii ''  '')) sample =
     failure 400 ''Search query is required.'' \<and>
   searchPlayers ascii_key (map ascii_lower) 1 (Some (ascii '' LION '')) sample =
     \<lparr>status = 200, success = True, message = None, data_count = Some 1,
      data = Data [amy_listing]\<rparr>"
proof -
  have l: "(ascii_lower c = 37) = (c = 37)" "(ascii_lower c = 92) = (c = 92)"
    "(ascii_lower c = 95) = (c = 95)" for c
    by (auto simp: ascii_lower_def)
  have p: "plain_text (ascii ''lions'')" "well_formed (ascii ''_'')"
    by (simp_all add: plain_text_def well_formed_def ascii_simps)
  have b: "blank (Some (ascii ''  ''))"
    by (simp add: blank_def trim_def js_whitespace_def ascii_simps)
  have t: "trim (ascii '' LION '') = [76, 73, 79, 78]"
    by (simp add: trim_def js_whitespace_def ascii_simps)
  have n: "\<not> blank (Some (ascii '' LION ''))"
    by (simp add: blank_def t)
  have f: "Player_search ascii_key (map ascii_lower) (trim (ascii '' LION '')) 1 sample =
             Inr [amy_listing]"
    unfolding t
    by (simp add: Player_search_def text_param_def and_then_def sample_def
        mk_team_def mk_player_def left_join_def on_team_def ilike_def ascii_lower_def
        listing_key_def ascii_key_def ascii_simps amy_listing_def select_listing_def)
  have r: "Player_search ascii_key (map ascii_lower) (ascii ''lions'') 1 sample =
             Inr [amy_listing]"
    by (simp add: Player_search_def text_param_def and_then_def sample_def
        mk_team_def mk_player_def left_join_def on_team_def ilike_def ascii_lower_def
        listing_key_def ascii_key_def ascii_simps amy_listing_def select_listing_def)
  have c: "\<not> contains_ci ascii_lower (ascii ''lions'') (ascii ''Amy'')"
    "contains_ci ascii_lower (ascii ''lions'') (ascii ''Lions'')"
    by (simp_all add: contains_ci_def ascii_lower_def ascii_simps sublist_Cons_right)
  have ps: "players sample = [mk_player 1 ''Zed'' None 1, mk_player 2 ''Amy'' (Some 1) 1,
                 mk_player 3 ''Bob'' None 1, mk_player 4 ''Cy'' (Some 2) 2]"
    by (simp add: sample_def)
  note x = search_plain_text [OF keys_ok_sample l p b n f]
  from x [THEN conjunct2, THEN conjunct1]
  obtain rows where rows: "Player_search ascii_key (map ascii_lower) (ascii ''_'') 1 sample =
      Inr rows"
    and m: "mset rows = mset (map (\<lambda>p. select_listing (with_team sample p))
               (filter (\<lambda>p. p_user_id p = 1 \<and> pattern_matches ascii_lower (ascii ''_'') sample p)
                  (players sample)))"
    by blast
  have "size (mset rows) = 3"
    unfolding m ps
    by (simp add: pattern_matches_def like_iff_matched [symmetric] mk_player_def mk_team_def
        sample_def on_team_def ascii_simps ascii_lower_def)
  then have "length rows = 3" by simp
  with rows have g: "\<exists>rows. Player_search ascii_key (map ascii_lower) (ascii ''_'') 1 sample =
      Inr rows \<and> length rows = 3"
    by blast
  from x have w: "searchPlayers ascii_key (map ascii_lower) 1 (Some (ascii ''  '')) sample =
       failure 400 ''Search query is required.''"
    "searchPlayers ascii_key (map ascii_lower) 1 (Some (ascii '' LION '')) sample =
       \<lparr>status = 200, success = True, message = None, data_count = Some 1,
        data = Data [amy_listing]\<rparr>"
    by simp_all
  from l have l': "\<forall>c. (ascii_lower c = 37) = (c = 37)" "\<forall>c. (ascii_lower c = 92) = (c = 92)"
    "\<forall>c. (ascii_lower c = 95) = (c = 95)"
    by simp_all
  from keys_ok_sample l' p b n f r c g w show ?thesis by (intro conjI)
qed

subsection \<open>Creating a team\<close>













lemma trim_Nil: "trim [] = []"
  by (simp add: trim_def)





subsection \<open>Updates with an empty name\<close>

lemma updateTeam_blank:
  "blank (b_team_name body) \<Longrightarrow>
   updateTeam now u i body d =
     (failure 400 (if truthy_text (b_team_name body) then ''Team name cannot be empty.''
                   else ''Team name is required.''), d)"
  by (auto simp: blank_def updateTeam_def truthy_text_def Let_def split: option.splits)

lemma updatePlayer_blank:
  "blank (b_player_name body) \<Longrightarrow>
   updatePlayer now u i body d =
     (failure 400 (if truthy_text (b_player_name body) then ''Player name cannot be empty.''
                   else ''Player name is required.''), d)"
  by (auto simp: blank_def updatePlayer_def truthy_text_def Let_def split: option.splits)

text \<open>
  C8. \<^verbatim>\<open>updateTeam\<close> and \<^verbatim>\<open>updatePlayer\<close> answer a name that is absent, empty or white
  space only with 400, and the store after the call is the store before it: no row,
  and so no \<^verbatim>\<open>updated_at\<close>, has changed.
\<close>

theorem update_blank_name_rejected:
  assumes "blank (b_team_name tb)" and "blank (b_player_name pb)"
  shows "status (fst (updateTeam now u i tb d)) = 400 \<and>
         \<not> success (fst (updateTeam now u i tb d)) \<and>
         snd (updateTeam now u i tb d) = d \<and>
         status (fst (updatePlayer now u j pb d)) = 400 \<and>
         \<not> success (fst (updatePlayer now u j pb d)) \<and>
         snd (updatePlayer now u j pb d) = d"
  by (simp add: updateTeam_blank [OF assms(1)] updatePlayer_blank [OF assms(2)] failure_def)

theorem update_blank_name_rejected_witness:
  "blank (b_team_name (bears_body\<lparr>b_team_name := Some (ascii ''  '')\<rparr>)) \<and>
   blank (b_player_name \<lparr>b_player_name = Some [], b_position = None,
                          b_jersey_number = Some 9, b_team_id = Some 1\<rparr>) \<and>
   status (fst (updateTeam 7 1 1 (bears_body\<lparr>b_team_name := Some (ascii ''  '')\<rparr>) sample)) = 400 \<and>
   snd (updateTeam 7 1 1 (bears_body\<lparr>b_team_name := Some (ascii ''  '')\<rparr>) sample) = sample \<and>
   status (fst (updatePlayer 7 1 2 \<lparr>b_player_name = Some [], b_position = None,
                          b_jersey_number = Some 9, b_team_id = Some 1\<rparr> sample)) = 400 \<and>
   snd (updatePlayer 7 1 2 \<lparr>b_player_name = Some [], b_position = None,
                          b_jersey_number = Some 9, b_team_id = Some 1\<rparr> sample) = sample \<and>
   Team_findById 1 1 sample \<noteq> None \<and> Player_findById 2 1 sample \<noteq> None"
proof -
  have t: "blank (b_team_name (bears_body\<lparr>b_team_name := Some (ascii ''  '')\<rparr>))"
    by (simp add: blank_def trim_def js_whitespace_def ascii_def)
  have p: "blank (b_player_name \<lparr>b_player_name = Some [], b_position = None,
                          b_jersey_number = Some 9, b_team_id = Some 1\<rparr>)"
    by (simp add: blank_def trim_def)
  have own: "Team_findById 1 1 sample \<noteq> None" "Player_findById 2 1 sample \<noteq> None"
    by (simp_all add: Team_findById_def Player_findById_def sample_def mk_team_def
        mk_player_def first_row_def inner_join_def on_team_def)
  show ?thesis
    using update_blank_name_rejected [OF t p, of 7 1 1 sample 2] t p own by simp
qed

subsection \<open>Updating and creating players\<close>

lemma updatePlayer_success:
  assumes "updatePlayer now u i body d = (r, d')" and "success r"
  shows "\<exists>s. b_player_name body = Some s \<and> trim s \<noteq> [] \<and>
           Player_update now i (trim s) (trim_or_null (b_position body))
             (or_null (b_jersey_number body)) (or_null (b_team_id body)) u d = Inr (True, d') \<and>
           r = succeed 200 ''Player updated successfully.'' (Player_findById i u d')"
  using assms
  by (auto simp: updatePlayer_def truthy_text_def failure_def Let_def
           split: option.splits if_splits sum.splits)


lemma or_null_falsy: "\<not> truthy_int v \<Longrightarrow> or_null v = None"
  by (simp add: or_null_def)

lemma or_null_idem: "or_null (or_null v) = or_null v"
  by (simp add: or_null_def truthy_int_def)

lemma inner_join_global: "\<forall>p\<in>set ps. team_id p = None \<Longrightarrow> inner_join ps ts = []"
  by (induction ps) (simp_all add: inner_join_def on_team_def)

lemma Player_findById_global:
  assumes "\<forall>p\<in>set (players d). p_id p = i \<and> p_user_id p = u \<longrightarrow> team_id p = None"
  shows "Player_findById i u d = None"
proof -
  have "filter (\<lambda>r. p_id (fst r) = i \<and> p_user_id (fst r) = u) (inner_join (players d) (teams d)) =
        inner_join (filter (\<lambda>p. p_id p = i \<and> p_user_id p = u) (players d)) (teams d)"
    by (rule inner_join_filter)
  also have "\<dots> = []"
    using assms by (intro inner_join_global) auto
  finally show ?thesis by (simp add: Player_findById_def first_row_def)
qed

lemma updated_rows:
  assumes "Player_update now i n pos j t u d = Inr (True, d')"
  shows "(\<exists>p\<in>set (players d'). p_id p = i \<and> p_user_id p = u) \<and>
         (\<forall>p\<in>set (players d'). p_id p = i \<and> p_user_id p = u \<longrightarrow>
            jersey_number p = j \<and> team_id p = or_null t \<and> p_updated_at p = now)"
proof -
  from Player_update_Inr [OF assms] obtain n' pos' where
    hit: "list_ex (\<lambda>p. p_id p = i \<and> p_user_id p = u) (players d)"
    and d': "d' = d\<lparr>players :=
                  map (\<lambda>p. if p_id p = i \<and> p_user_id p = u
                           then p\<lparr>player_name := n', position := pos', jersey_number := j,
                                  team_id := or_null t, p_updated_at := now\<rparr>
                           else p) (players d)\<rparr>"
    by auto
  define upd :: "player \<Rightarrow> player" where "upd = (\<lambda>p. if p_id p = i \<and> p_user_id p = u
                           then p\<lparr>player_name := n', position := pos', jersey_number := j,
                                  team_id := or_null t, p_updated_at := now\<rparr>
                           else p)"
  have ps: "players d' = map upd (players d)"
    unfolding d' upd_def by simp
  have same: "p_id (upd q) = p_id q" "p_user_id (upd q) = p_user_id q" for q
    by (simp_all add: upd_def)
  have new: "p_id q = i \<and> p_user_id q = u \<Longrightarrow>
             jersey_number (upd q) = j \<and> team_id (upd q) = or_null t \<and> p_updated_at (upd q) = now"
    for q
    by (simp add: upd_def)
  from hit obtain p where p: "p \<in> set (players d)" "p_id p = i" "p_user_id p = u"
    by (auto simp: list_ex_iff)
  then have "upd p \<in> set (players d')" "p_id (upd p) = i \<and> p_user_id (upd p) = u"
    by (simp_all add: ps same)
  then have 1: "\<exists>p\<in>set (players d'). p_id p = i \<and> p_user_id p = u" ..
  have 2: "\<forall>p\<in>set (players d'). p_id p = i \<and> p_user_id p = u \<longrightarrow>
            jersey_number p = j \<and> team_id p = or_null t \<and> p_updated_at p = now"
  proof (intro ballI impI)
    fix q
    assume "q \<in> set (players d')" and h: "p_id q = i \<and> p_user_id q = u"
    then obtain q0 where q0: "q0 \<in> set (players d)" "q = upd q0"
      by (auto simp: ps)
    from h q0(2) have "p_id q0 = i \<and> p_user_id q0 = u" by (simp add: same)
    from new [OF this] q0(2)
    show "jersey_number q = j \<and> team_id q = or_null t \<and> p_updated_at q = now" by simp
  qed
  from 1 2 show ?thesis ..
qed

lemma updatePlayer_ok:
  assumes "b_player_name body = Some s" and "trim s \<noteq> []"
    and "Player_update now i (trim s) (trim_or_null (b_position body))
           (or_null (b_jersey_number body)) (or_null (b_team_id body)) u d = Inr (True, d2)"
  shows "updatePlayer now u i body d =
           (succeed 200 ''Player updated successfully.'' (Player_findById i u d2), d2)"
proof -
  from assms(2) have "s \<noteq> []" using trim_Nil by auto
  with assms show ?thesis
    by (simp add: updatePlayer_def truthy_text_def Let_def)
qed

text \<open>
  C9. When \<^verbatim>\<open>updatePlayer\<close> reports success for a request whose team id is absent, null
  or 0, the status is 200 and the data of the response is null: the player of that id
  and owner existed before the call, after it every row of that id and owner has a null
  team id, and \<^verbatim>\<open>findGlobalPlayers\<close> lists such a row, but \<^verbatim>\<open>Player.findById\<close>, which
  the handler calls for the data, returns null.
\<close>

theorem update_to_global_returns_null:
  assumes "updatePlayer now u i body d = (r, d')"
    and "\<not> truthy_int (b_team_id body)"
    and "success r"
  shows "status r = 200 \<and> data r = Data None \<and>
         list_ex (\<lambda>p. p_id p = i \<and> p_user_id p = u) (players d) \<and>
         (\<forall>p\<in>set (players d'). p_id p = i \<and> p_user_id p = u \<longrightarrow> team_id p = None) \<and>
         (\<exists>p\<in>set (players d'). p_id p = i \<and> p_user_id p = u \<and>
            select_player p \<in> set (Player_findGlobalPlayers coll u d')) \<and>
         Player_findById i u d' = None"
proof -
  from updatePlayer_success [OF assms(1,3)] obtain s where
    upd: "Player_update now i (trim s) (trim_or_null (b_position body))
            (or_null (b_jersey_number body)) (or_null (b_team_id body)) u d = Inr (True, d')"
    and r: "r = succeed 200 ''Player updated successfully.'' (Player_findById i u d')"
    by blast
  from Player_update_Inr [OF upd]
  have hit: "list_ex (\<lambda>p. p_id p = i \<and> p_user_id p = u) (players d)" by auto
  from updated_rows [OF upd] assms(2)
  have ex: "\<exists>p\<in>set (players d'). p_id p = i \<and> p_user_id p = u"
    and all: "\<forall>p\<in>set (players d'). p_id p = i \<and> p_user_id p = u \<longrightarrow> team_id p = None"
    by (simp_all add: or_null_falsy or_null_def truthy_int_def)
  from ex obtain p where p: "p \<in> set (players d')" "p_id p = i" "p_user_id p = u" by blast
  with all have "team_id p = None" by simp
  from global_player_listed [OF p(1) this, of coll] p
  have g: "\<exists>p\<in>set (players d'). p_id p = i \<and> p_user_id p = u \<and>
            select_player p \<in> set (Player_findGlobalPlayers coll u d')"
    by blast
  have f: "Player_findById i u d' = None"
    by (rule Player_findById_global [OF all])
  from r f have st: "status r = 200" "data r = Data None" by (simp_all add: succeed_def)
  from st hit all g f show ?thesis by (intro conjI)
qed

lemma updatePlayer_amy:
  "updatePlayer 7 1 2 amy_body sample =
     (succeed 200 ''Player updated successfully.'' None,
      sample\<lparr>players := [mk_player 1 ''Zed'' None 1,
                           (mk_player 2 ''Amy'' None 1)\<lparr>p_updated_at := 7\<rparr>,
                           mk_player 3 ''Bob'' None 1, mk_player 4 ''Cy'' (Some 2) 2]\<rparr>)"
proof -
  have t: "trim (ascii ''Amy'') = ascii ''Amy''"
    by (simp add: trim_def js_whitespace_def ascii_def)
  have v: "varchar 255 (ascii ''Amy'') = Inr (ascii ''Amy'')" "ascii ''Amy'' \<noteq> []"
    by (simp_all add: varchar_def ascii_def)
  have u: "Player_update 7 2 (ascii ''Amy'') None None None 1 sample =
     Inr (True, sample\<lparr>players := [mk_player 1 ''Zed'' None 1,
                           (mk_player 2 ''Amy'' None 1)\<lparr>p_updated_at := 7\<rparr>,
                           mk_player 3 ''Bob'' None 1, mk_player 4 ''Cy'' (Some 2) 2]\<rparr>)"
    by (simp add: Player_update_def and_then_def v nullable_def Let_def or_null_def
        truthy_int_def team_ref_ok_def sample_def mk_player_def)
  have f: "Player_findById 2 1 (sample\<lparr>players := [mk_player 1 ''Zed'' None 1,
                           (mk_player 2 ''Amy'' None 1)\<lparr>p_updated_at := 7\<rparr>,
                           mk_player 3 ''Bob'' None 1, mk_player 4 ''Cy'' (Some 2) 2]\<rparr>) = None"
    by (simp add: Player_findById_def inner_join_def on_team_def first_row_def sample_def
        mk_player_def mk_team_def)
  show ?thesis
    using updatePlayer_ok [of amy_body "ascii ''Amy''" 7 2 1 sample]
    by (simp add: amy_body_def t v u f trim_or_null_def or_null_def truthy_int_def)
qed

theorem update_to_global_returns_null_witness:
  "updatePlayer 7 1 2 amy_body sample =
     (succeed 200 ''Player updated successfully.'' None,
      sample\<lparr>players := [mk_player 1 ''Zed'' None 1,
                           (mk_player 2 ''Amy'' None 1)\<lparr>p_updated_at := 7\<rparr>,
                           mk_player 3 ''Bob'' None 1, mk_player 4 ''Cy'' (Some 2) 2]\<rparr>) \<and>
   \<not> truthy_int (b_team_id amy_body) \<and>
   success (succeed 200 ''Player updated successfully.'' (None :: player_detail option)) \<and>
   data (succeed 200 ''Player updated successfully.'' (None :: player_detail option)) = Data None \<and>
   Player_findById 2 1 sample \<noteq> None"
proof -
  have n: "\<not> truthy_int (b_team_id amy_body)"
    by (simp add: amy_body_def truthy_int_def)
  have s: "success (succeed 200 ''Player updated successfully.'' (None :: player_detail option))"
    by (simp add: succeed_def)
  have own: "Player_findById 2 1 sample \<noteq> None"
    by (simp add: Player_findById_def sample_def mk_team_def
        mk_player_def first_row_def inner_join_def on_team_def)
  from update_to_global_returns_null [OF updatePlayer_amy n s, of ascii_key]
  have d: "data (succeed 200 ''Player updated successfully.'' (None :: player_detail option)) =
             Data None"
    by (rule conjunct1 [OF conjunct2])
  from updatePlayer_amy n s d own show ?thesis by (intro conjI)
qed






subsection \<open>Team references of players\<close>

lemma keys_ok_iff:
  "keys_ok d \<longleftrightarrow>
     distinct (map t_id (teams d)) \<and> distinct (map p_id (players d)) \<and>
     (\<forall>t\<in>set (teams d). t_id t < next_team_id d) \<and>
     (\<forall>p\<in>set (players d). p_id p < next_player_id d)"
  by (simp add: keys_ok_def list_all_iff)

lemma refs_ok_iff:
  "refs_ok d \<longleftrightarrow> (\<forall>p\<in>set (players d). team_ref_ok (team_id p) d)"
  by (simp add: refs_ok_def list_all_iff)

lemma team_ref_ok_iff:
  "team_ref_ok r d \<longleftrightarrow> (\<forall>i. r = Some i \<longrightarrow> i \<in> t_id ` set (teams d))"
  by (cases r) (simp_all add: team_ref_ok_def)

lemma same_owner_iff:
  "same_owner d \<longleftrightarrow>
     (\<forall>p\<in>set (players d). \<forall>t\<in>set (teams d).
        team_id p = Some (t_id t) \<longrightarrow> t_user_id t = p_user_id p)"
  by (simp add: same_owner_def list_all_iff on_team_def)

lemma own_team_ref_iff:
  "own_team_ref r u d \<longleftrightarrow> (\<forall>t\<in>set (teams d). r = Some (t_id t) \<longrightarrow> t_user_id t = u)"
  by (cases r) (auto simp: own_team_ref_def list_all_iff)

text \<open>Rewriting rows of the players table in place.\<close>

lemma players_map_keys:
  assumes "keys_ok d" and "\<And>p. p_id (f p) = p_id p"
  shows "keys_ok (d\<lparr>players := map f (players d)\<rparr>)"
proof -
  have "p_id \<circ> f = p_id"
    by (simp add: assms(2) fun_eq_iff)
  with assms show ?thesis
    by (simp add: keys_ok_iff)
qed

lemma players_map_refs:
  assumes "refs_ok d"
    and "\<And>p. p \<in> set (players d) \<Longrightarrow>
           team_id (f p) = team_id p \<or> team_ref_ok (team_id (f p)) d"
  shows "refs_ok (d\<lparr>players := map f (players d)\<rparr>)"
proof -
  have "team_ref_ok (team_id (f p)) d" if "p \<in> set (players d)" for p
    using assms(2) [OF that] assms(1) that by (auto simp: refs_ok_iff)
  then show ?thesis
    by (simp add: refs_ok_iff team_ref_ok_iff)
qed

lemma players_map_owner:
  assumes "same_owner d" and "\<And>p. p_user_id (f p) = p_user_id p"
    and "\<And>p. p \<in> set (players d) \<Longrightarrow>
           team_id (f p) = team_id p \<or> own_team_ref (team_id (f p)) (p_user_id p) d"
  shows "same_owner (d\<lparr>players := map f (players d)\<rparr>)"
proof -
  have "t_user_id t = p_user_id (f p)"
    if "p \<in> set (players d)" "t \<in> set (teams d)" "team_id (f p) = Some (t_id t)" for p t
  proof -
    from assms(3) [OF that(1)] show ?thesis
    proof
      assume "team_id (f p) = team_id p"
      with that assms(1) show ?thesis by (simp add: same_owner_iff assms(2))
    next
      assume "own_team_ref (team_id (f p)) (p_user_id p) d"
      with that show ?thesis by (simp add: own_team_ref_iff assms(2))
    qed
  qed
  then show ?thesis
    by (simp add: same_owner_iff)
qed

lemma rewrite_players_inv:
  assumes id: "\<And>q. p_id (f q) = p_id q \<and> p_user_id (f q) = p_user_id q"
    and row: "\<And>q. q \<in> set (players d) \<Longrightarrow>
                f q = q \<or> (p_user_id q = u \<and> team_id (f q) = r \<and> team_ref_ok r d)"
  shows "(keys_ok d \<longrightarrow> keys_ok (d\<lparr>players := map f (players d)\<rparr>)) \<and>
         (refs_ok d \<longrightarrow> refs_ok (d\<lparr>players := map f (players d)\<rparr>)) \<and>
         (same_owner d \<and> own_team_ref r u d \<longrightarrow> same_owner (d\<lparr>players := map f (players d)\<rparr>))"
proof (intro conjI impI)
  assume "keys_ok d"
  then show "keys_ok (d\<lparr>players := map f (players d)\<rparr>)"
    by (rule players_map_keys) (simp add: id)
next
  assume "refs_ok d"
  then show "refs_ok (d\<lparr>players := map f (players d)\<rparr>)"
  proof (rule players_map_refs)
    fix p assume "p \<in> set (players d)"
    from row [OF this] show "team_id (f p) = team_id p \<or> team_ref_ok (team_id (f p)) d"
      by auto
  qed
next
  assume a: "same_owner d \<and> own_team_ref r u d"
  then have "same_owner d" ..
  then show "same_owner (d\<lparr>players := map f (players d)\<rparr>)"
  proof (rule players_map_owner)
    show "p_user_id (f p) = p_user_id p" for p by (simp add: id)
  next
    fix p assume "p \<in> set (players d)"
    from row [OF this] a
    show "team_id (f p) = team_id p \<or> own_team_ref (team_id (f p)) (p_user_id p) d"
      by auto
  qed
qed

lemma perform_PlayerUpdate:
  "(keys_ok d \<longrightarrow> keys_ok (perform now (PlayerUpdate i n p j t u) d)) \<and>
   (refs_ok d \<longrightarrow> refs_ok (perform now (PlayerUpdate i n p j t u) d)) \<and>
   (same_owner d \<and> own_team_ref (or_null t) u d \<longrightarrow>
      same_owner (perform now (PlayerUpdate i n p j t u) d))"
proof (cases "Player_update now i n p j t u d")
  case (Inl e)
  then show ?thesis by (simp add: after_def)
next
  case (Inr x)
  obtain found d' where x: "x = (found, d')" by (cases x)
  from Player_update_Inr [OF Inr [unfolded x]] obtain n' pos' where
    found: "found = list_ex (\<lambda>p. p_id p = i \<and> p_user_id p = u) (players d)"
    and fk: "found \<longrightarrow> team_ref_ok (or_null t) d"
    and d': "d' = d\<lparr>players :=
                  map (\<lambda>p. if p_id p = i \<and> p_user_id p = u
                           then p\<lparr>player_name := n', position := pos', jersey_number := j,
                                  team_id := or_null t, p_updated_at := now\<rparr>
                           else p) (players d)\<rparr>"
    by auto
  define f :: "player \<Rightarrow> player" where
    "f = (\<lambda>p. if p_id p = i \<and> p_user_id p = u
               then p\<lparr>player_name := n', position := pos', jersey_number := j,
                      team_id := or_null t, p_updated_at := now\<rparr>
               else p)"
  have d'': "perform now (PlayerUpdate i n p j t u) d = d\<lparr>players := map f (players d)\<rparr>"
    by (simp add: Inr x after_def d' f_def)
  have id: "p_id (f q) = p_id q \<and> p_user_id (f q) = p_user_id q" for q
    by (simp add: f_def)
  have row: "f q = q \<or> (p_user_id q = u \<and> team_id (f q) = or_null t \<and> team_ref_ok (or_null t) d)"
    if "q \<in> set (players d)" for q
  proof (cases "p_id q = i \<and> p_user_id q = u")
    case True
    with that have "list_ex (\<lambda>p. p_id p = i \<and> p_user_id p = u) (players d)"
      by (auto simp: list_ex_iff)
    with found fk have "team_ref_ok (or_null t) d" by simp
    with True show ?thesis by (simp add: f_def)
  next
    case False
    then have "f q = q" unfolding f_def by (rule if_not_P)
    then show ?thesis ..
  qed
  show ?thesis
    unfolding d'' by (rule rewrite_players_inv [OF id row])
qed

lemma perform_PlayerAssign:
  "(keys_ok d \<longrightarrow> keys_ok (perform now (PlayerAssign i t u) d)) \<and>
   (refs_ok d \<longrightarrow> refs_ok (perform now (PlayerAssign i t u) d)) \<and>
   (same_owner d \<and> own_team_ref (Some t) u d \<longrightarrow>
      same_owner (perform now (PlayerAssign i t u) d))"
proof (cases "list_ex (\<lambda>p. p_id p = i \<and> p_user_id p = u) (players d) \<and>
              \<not> team_ref_ok (Some t) d")
  case True
  then have "Player_assignToTeam now i t u d = Inl ForeignKeyViolation"
    by (simp add: Player_assignToTeam_def)
  then show ?thesis by (simp add: after_def)
next
  case False
  define f :: "player \<Rightarrow> player" where
    "f = (\<lambda>p. if p_id p = i \<and> p_user_id p = u
               then p\<lparr>team_id := Some t, p_updated_at := now\<rparr> else p)"
  have "Player_assignToTeam now i t u d =
          Inr (list_ex (\<lambda>p. p_id p = i \<and> p_user_id p = u) (players d),
               d\<lparr>players := map f (players d)\<rparr>)"
    unfolding Player_assignToTeam_def Let_def f_def using False by (rule if_not_P)
  then have d'': "perform now (PlayerAssign i t u) d = d\<lparr>players := map f (players d)\<rparr>"
    by (simp add: after_def)
  have id: "p_id (f q) = p_id q \<and> p_user_id (f q) = p_user_id q" for q
    by (simp add: f_def)
  have row: "f q = q \<or> (p_user_id q = u \<and> team_id (f q) = Some t \<and> team_ref_ok (Some t) d)"
    if "q \<in> set (players d)" for q
  proof (cases "p_id q = i \<and> p_user_id q = u")
    case True
    with that have "list_ex (\<lambda>p. p_id p = i \<and> p_user_id p = u) (players d)"
      by (auto simp: list_ex_iff)
    with False have "team_ref_ok (Some t) d" by simp
    with True show ?thesis by (simp add: f_def)
  next
    case False
    then have "f q = q" unfolding f_def by (rule if_not_P)
    then show ?thesis ..
  qed
  show ?thesis
    unfolding d'' by (rule rewrite_players_inv [OF id row])
qed

lemma perform_PlayerUnassign:
  "(keys_ok d \<longrightarrow> keys_ok (perform now (PlayerUnassign i u) d)) \<and>
   (refs_ok d \<longrightarrow> refs_ok (perform now (PlayerUnassign i u) d)) \<and>
   (same_owner d \<longrightarrow> same_owner (perform now (PlayerUnassign i u) d))"
proof -
  define f :: "player \<Rightarrow> player" where
    "f = (\<lambda>p. if p_id p = i \<and> p_user_id p = u
               then p\<lparr>team_id := None, p_updated_at := now\<rparr> else p)"
  have d'': "perform now (PlayerUnassign i u) d = d\<lparr>players := map f (players d)\<rparr>"
    by (simp add: Player_unassignFromTeam_def f_def Let_def)
  have id: "p_id (f q) = p_id q \<and> p_user_id (f q) = p_user_id q" for q
    by (simp add: f_def)
  have row: "f q = q \<or> (p_user_id q = u \<and> team_id (f q) = None \<and> team_ref_ok None d)"
    if "q \<in> set (players d)" for q
    by (simp add: f_def team_ref_ok_def)
  have "own_team_ref None u d" by (simp add: own_team_ref_def)
  with rewrite_players_inv [OF id row] show ?thesis
    unfolding d'' by blast
qed

lemma perform_PlayerCreate:
  "(keys_ok d \<longrightarrow> keys_ok (perform now (PlayerCreate n p j t u) d)) \<and>
   (refs_ok d \<longrightarrow> refs_ok (perform now (PlayerCreate n p j t u) d)) \<and>
   (same_owner d \<and> own_team_ref (or_null t) u d \<longrightarrow>
      same_owner (perform now (PlayerCreate n p j t u) d))"
proof (cases "Player_create now n p j t u d")
  case (Inl e)
  then show ?thesis by (simp add: after_def)
next
  case (Inr x)
  obtain row d' where x: "x = (row, d')" by (cases x)
  from Player_create_Inr [OF Inr [unfolded x]] obtain n' pos' where
    fk: "team_ref_ok (or_null t) d"
    and row: "row = \<lparr>p_id = next_player_id d, player_name = n', position = pos',
                jersey_number = j, team_id = or_null t, p_user_id = u,
                p_created_at = now, p_updated_at = now\<rparr>"
    and d': "d' = d\<lparr>players := players d @ [row], next_player_id := next_player_id d + 1\<rparr>"
    by auto
  have r: "p_id row = next_player_id d" "team_id row = or_null t" "p_user_id row = u"
    by (simp_all add: row)
  have d'': "perform now (PlayerCreate n p j t u) d = d'"
    by (simp add: Inr x after_def)
  have 1: "keys_ok d'" if "keys_ok d"
    using that by (auto simp: keys_ok_iff d' r)
  have 2: "refs_ok d'" if "refs_ok d"
    using that fk by (simp add: refs_ok_iff team_ref_ok_iff d' r)
  have 3: "same_owner d'" if "same_owner d \<and> own_team_ref (or_null t) u d"
    using that by (simp add: same_owner_iff own_team_ref_iff d' r)
  from 1 2 3 show ?thesis unfolding d'' by blast
qed

lemma perform_PlayerDelete:
  "(keys_ok d \<longrightarrow> keys_ok (perform now (PlayerDelete i u) d)) \<and>
   (refs_ok d \<longrightarrow> refs_ok (perform now (PlayerDelete i u) d)) \<and>
   (same_owner d \<longrightarrow> same_owner (perform now (PlayerDelete i u) d))"
  by (auto simp: Player_delete_def Let_def keys_ok_iff refs_ok_iff team_ref_ok_iff
      same_owner_iff distinct_map_filter)

lemma perform_TeamCreate:
  "(keys_ok d \<longrightarrow> keys_ok (perform now (TeamCreate n l c ds u) d)) \<and>
   (refs_ok d \<longrightarrow> refs_ok (perform now (TeamCreate n l c ds u) d)) \<and>
   (keys_ok d \<and> refs_ok d \<and> same_owner d \<longrightarrow>
      same_owner (perform now (TeamCreate n l c ds u) d))"
proof (cases "Team_create now n l c ds u d")
  case (Inl e)
  then show ?thesis by (simp add: after_def)
next
  case (Inr x)
  obtain row d' where x: "x = (row, d')" by (cases x)
  from Team_create_Inr [OF Inr [unfolded x]] obtain n' l' c' ds' where
    row: "row = \<lparr>t_id = next_team_id d, team_name = n', team_logo = Some l',
                team_color = Some c', description = Some ds', t_user_id = u,
                t_created_at = now, t_updated_at = now\<rparr>"
    and d': "d' = d\<lparr>teams := teams d @ [row], next_team_id := next_team_id d + 1\<rparr>"
    by auto
  have r: "t_id row = next_team_id d" "t_user_id row = u"
    by (simp_all add: row)
  have d'': "perform now (TeamCreate n l c ds u) d = d'"
    by (simp add: Inr x after_def)
  have 1: "keys_ok d'" if "keys_ok d"
    using that by (auto simp: keys_ok_iff d' r)
  have 2: "refs_ok d'" if "refs_ok d"
    using that by (auto simp: refs_ok_iff team_ref_ok_iff d' r)
  have 3: "same_owner d'" if a: "keys_ok d \<and> refs_ok d \<and> same_owner d"
  proof -
    have "team_id q \<noteq> Some (next_team_id d)" if "q \<in> set (players d)" for q
    proof
      assume "team_id q = Some (next_team_id d)"
      with a that have "next_team_id d \<in> t_id ` set (teams d)"
        by (auto simp: refs_ok_iff team_ref_ok_iff)
      with a show False by (auto simp: keys_ok_iff)
    qed
    with a show ?thesis
      by (auto simp: same_owner_iff d' r)
  qed
  from 1 2 3 show ?thesis unfolding d'' by blast
qed

lemma perform_TeamUpdate:
  "(keys_ok d \<longrightarrow> keys_ok (perform now (TeamUpdate i n l c ds u) d)) \<and>
   (refs_ok d \<longrightarrow> refs_ok (perform now (TeamUpdate i n l c ds u) d)) \<and>
   (same_owner d \<longrightarrow> same_owner (perform now (TeamUpdate i n l c ds u) d))"
proof (cases "Team_update now i n l c ds u d")
  case (Inl e)
  then show ?thesis by (simp add: after_def)
next
  case (Inr x)
  obtain ok d' where x: "x = (ok, d')" by (cases x)
  from Team_update_Inr [OF Inr [unfolded x]] obtain n' l' c' ds' where
    d': "d' = d\<lparr>teams := map (\<lambda>t. if t_id t = i \<and> t_user_id t = u
                                      then t\<lparr>team_name := n', team_logo := Some l',
                                             team_color := Some c', description := Some ds',
                                             t_updated_at := now\<rparr>
                                      else t) (teams d)\<rparr>"
    by auto
  define f :: "team \<Rightarrow> team" where
    "f = (\<lambda>t. if t_id t = i \<and> t_user_id t = u
                                      then t\<lparr>team_name := n', team_logo := Some l',
                                             team_color := Some c', description := Some ds',
                                             t_updated_at := now\<rparr>
                                      else t)"
  have d'': "perform now (TeamUpdate i n l c ds u) d = d\<lparr>teams := map f (teams d)\<rparr>"
    by (simp add: Inr x after_def d' f_def)
  have id: "t_id (f q) = t_id q" "t_user_id (f q) = t_user_id q" for q
    by (simp_all add: f_def)
  have c: "t_id \<circ> f = t_id" by (simp add: fun_eq_iff id)
  have 1: "keys_ok (d\<lparr>teams := map f (teams d)\<rparr>)" if "keys_ok d"
    using that by (simp add: keys_ok_iff c id)
  have 2: "refs_ok (d\<lparr>teams := map f (teams d)\<rparr>)" if "refs_ok d"
    using that by (simp add: refs_ok_iff team_ref_ok_iff image_image id)
  have 3: "same_owner (d\<lparr>teams := map f (teams d)\<rparr>)" if "same_owner d"
    using that by (simp add: same_owner_iff id)
  from 1 2 3 show ?thesis unfolding d'' by blast
qed

lemma perform_TeamDelete:
  "(keys_ok d \<longrightarrow> keys_ok (perform now (TeamDelete i u) d)) \<and>
   (refs_ok d \<longrightarrow> refs_ok (perform now (TeamDelete i u) d)) \<and>
   (same_owner d \<longrightarrow> same_owner (perform now (TeamDelete i u) d))"
proof -
  define gone where "gone = filter (\<lambda>t. t_id t = i \<and> t_user_id t = u) (teams d)"
  define kept where "kept = filter (\<lambda>t. \<not> (t_id t = i \<and> t_user_id t = u)) (teams d)"
  define f :: "player \<Rightarrow> player" where
    "f = (\<lambda>p. if list_ex (on_team p) gone then p\<lparr>team_id := None\<rparr> else p)"
  have d'': "perform now (TeamDelete i u) d = d\<lparr>teams := kept, players := map f (players d)\<rparr>"
    by (simp add: Team_delete_def Let_def gone_def kept_def f_def)
  have id: "p_id (f q) = p_id q" "p_user_id (f q) = p_user_id q" for q
    by (simp_all add: f_def)
  have c: "p_id \<circ> f = p_id" by (simp add: fun_eq_iff id)
  have sub: "set kept \<subseteq> set (teams d)" by (auto simp: kept_def)
  have part: "t \<in> set kept \<or> t \<in> set gone" if "t \<in> set (teams d)" for t
    using that by (auto simp: kept_def gone_def)
  have tm: "team_id (f q) = None \<or> (f q = q \<and> \<not> list_ex (on_team q) gone)" for q
    by (simp add: f_def)
  have 1: "keys_ok (d\<lparr>teams := kept, players := map f (players d)\<rparr>)" if "keys_ok d"
    using that by (auto simp: keys_ok_iff c id kept_def distinct_map_filter)
  have 2: "refs_ok (d\<lparr>teams := kept, players := map f (players d)\<rparr>)" if r: "refs_ok d"
  proof -
    have "j \<in> t_id ` set kept" if q: "q \<in> set (players d)" and j: "team_id (f q) = Some j" for q j
    proof -
      from tm [of q] j have fq: "f q = q" and ng: "\<not> list_ex (on_team q) gone" by auto
      from r q j fq obtain t where t: "t \<in> set (teams d)" "t_id t = j"
        by (auto simp: refs_ok_iff team_ref_ok_iff)
      with j fq have "on_team q t" by (simp add: on_team_def)
      with ng have "t \<notin> set gone" by (auto simp: list_ex_iff)
      with part [OF t(1)] have "t \<in> set kept" by simp
      with t(2) show ?thesis by auto
    qed
    then show ?thesis
      by (simp add: refs_ok_iff team_ref_ok_iff)
  qed
  have 3: "same_owner (d\<lparr>teams := kept, players := map f (players d)\<rparr>)" if s: "same_owner d"
  proof -
    have "t_user_id t = p_user_id (f q)"
      if "q \<in> set (players d)" "t \<in> set kept" "team_id (f q) = Some (t_id t)" for q t
    proof -
      from tm [of q] that(3) have "f q = q" by auto
      with that sub s show ?thesis by (auto simp: same_owner_iff)
    qed
    then show ?thesis
      by (simp add: same_owner_iff)
  qed
  from 1 2 3 show ?thesis unfolding d'' by blast
qed

text \<open>
  C1, as amended. Every write of the two models keeps the primary keys and keeps the
  players' foreign key: a non-null team id always names a row of the teams table, since
  the store rejects a create, update or assignment that names none. A write keeps every
  reference within one user when the team id it sets, if it sets one, names a team of
  the caller; the operations themselves do not look at the owner of the team.
\<close>

theorem writes_keep_team_references:
  assumes "keys_ok d" and "refs_ok d"
  shows "keys_ok (perform now w d) \<and> refs_ok (perform now w d) \<and>
         (same_owner d \<and> sets_own_team w d \<longrightarrow> same_owner (perform now w d))"
proof (cases w)
  case (PlayerCreate n p j t u)
  with assms perform_PlayerCreate [of d now n p j t u] show ?thesis by simp
next
  case (PlayerUpdate i n p j t u)
  with assms perform_PlayerUpdate [of d now i n p j t u] show ?thesis by simp
next
  case (PlayerAssign i t u)
  with assms perform_PlayerAssign [of d now i t u] show ?thesis by simp
next
  case (PlayerUnassign i u)
  with assms perform_PlayerUnassign [of d now i u] show ?thesis by simp
next
  case (PlayerDelete i u)
  with assms perform_PlayerDelete [of d now i u] show ?thesis by simp
next
  case (TeamCreate n l c ds u)
  with assms perform_TeamCreate [of d now n l c ds u] show ?thesis by simp
next
  case (TeamUpdate i n l c ds u)
  with assms perform_TeamUpdate [of d now i n l c ds u] show ?thesis by simp
next
  case (TeamDelete i u)
  with assms perform_TeamDelete [of d now i u] show ?thesis by simp
qed

lemma assign_bob:
  "Player_assignToTeam 7 3 t 1 sample =
     (if t = 1 \<or> t = 2 then Inr (True, bob_with t) else Inl ForeignKeyViolation)"
  by (simp add: Player_assignToTeam_def Let_def team_ref_ok_def sample_def mk_team_def
      mk_player_def bob_with_def)

text \<open>
  C1 as stated fails: in the sample store, where every reference is within one user,
  user 1 assigns the own player Bob to team 2, which belongs to user 2. The handler
  answers 200 with the name of that team, and the store then holds a player of user 1
  that references a team of user 2.
\<close>

theorem cross_user_assign_counterexample:
  "keys_ok sample \<and> refs_ok sample \<and> same_owner sample \<and>
   t_user_id (mk_team 2 ''Tigers'' 2) = 2 \<and>
   mk_team 2 ''Tigers'' 2 \<in> set (teams sample) \<and>
   assignPlayerToTeam 7 1 3 (Some 2) sample =
     (succeed 200 ''Player assigned to team successfully.''
        (Some (select_detail ((mk_player 3 ''Bob'' (Some 2) 1)\<lparr>p_updated_at := 7\<rparr>,
                              mk_team 2 ''Tigers'' 2))),
      bob_with 2) \<and>
   (mk_player 3 ''Bob'' (Some 2) 1)\<lparr>p_updated_at := 7\<rparr> \<in> set (players (bob_with 2)) \<and>
   \<not> same_owner (bob_with 2)"
proof -
  have f: "Player_findById 3 1 (bob_with 2) =
        Some (select_detail ((mk_player 3 ''Bob'' (Some 2) 1)\<lparr>p_updated_at := 7\<rparr>,
                              mk_team 2 ''Tigers'' 2))"
    by (simp add: Player_findById_def inner_join_def on_team_def first_row_def bob_with_def
        sample_def mk_team_def mk_player_def)
  have a: "assignPlayerToTeam 7 1 3 (Some 2) sample =
     (succeed 200 ''Player assigned to team successfully.''
        (Some (select_detail ((mk_player 3 ''Bob'' (Some 2) 1)\<lparr>p_updated_at := 7\<rparr>,
                              mk_team 2 ''Tigers'' 2))),
      bob_with 2)"
    by (simp add: assignPlayerToTeam_def assign_bob f)
  have n: "\<not> same_owner (bob_with 2)"
    by (simp add: same_owner_def bob_with_def sample_def mk_team_def mk_player_def on_team_def)
  have m: "t_user_id (mk_team 2 ''Tigers'' 2) = 2" "mk_team 2 ''Tigers'' 2 \<in> set (teams sample)"
    "(mk_player 3 ''Bob'' (Some 2) 1)\<lparr>p_updated_at := 7\<rparr> \<in> set (players (bob_with 2))"
    by (simp_all add: mk_team_def sample_def bob_with_def)
  from keys_ok_sample refs_ok_sample same_owner_sample m(1,2) a m(3) n
  show ?thesis by (intro conjI)
qed

theorem writes_keep_team_references_witness:
  "keys_ok sample \<and> refs_ok sample \<and> same_owner sample \<and>
   sets_own_team (PlayerAssign 3 1 1) sample \<and>
   perform 7 (PlayerAssign 3 1 1) sample = bob_with 1 \<and>
   keys_ok (bob_with 1) \<and> refs_ok (bob_with 1) \<and> same_owner (bob_with 1) \<and>
   perform 7 (PlayerAssign 3 9 1) sample = sample"
proof -
  have o: "sets_own_team (PlayerAssign 3 1 1) sample"
    by (simp add: own_team_ref_def sample_def mk_team_def)
  have p: "perform 7 (PlayerAssign 3 1 1) sample = bob_with 1"
    "perform 7 (PlayerAssign 3 9 1) sample = sample"
    by (simp_all add: assign_bob after_def)
  from writes_keep_team_references
         [OF keys_ok_sample refs_ok_sample, of 7 "PlayerAssign 3 1 1", unfolded p]
    same_owner_sample o
  have "keys_ok (bob_with 1)" "refs_ok (bob_with 1)" "same_owner (bob_with 1)"
    by blast+
  with keys_ok_sample refs_ok_sample same_owner_sample o p
  show ?thesis by (intro conjI)
qed

end
